theory Spec2Isabelle
  imports Main "HOL-Library.Sublist"
begin

section \<open>Data model\<close>

text \<open>
  The command-line front end of pystructurizr (\<^verbatim>\<open>cli.py\<close>, \<^verbatim>\<open>cli_helper.py\<close>) is a
  pipeline of effects: a child process, an HTTP request, and file-system operations.
  Every effect is made explicit here. Exceptions are values of the type \<open>error\<close>;
  a function that may raise returns \<open>error + 'a\<close>, and one that also changes the
  world returns the result paired with the new world, so that the state at the moment
  of a failure is kept.
\<close>

datatype error =
    CalledProcessError int
  | JSONDecodeError
  | KeyError string
  | TypeError
  | UnicodeDecodeError
  | RuntimeError
  | TransportError
  | ClickException string
  | FileNotFoundError
  | FileExistsError
  | NotADirectoryError
  | IsADirectoryError
  | CrossDeviceError
  | ShutilError
  | CloudError string
  | Interrupted

text \<open>
  What \<^verbatim>\<open>json.loads\<close> returns: \<open>JObj\<close> holds the items of a Python dict (looked up
  with \<open>map_of\<close>), \<open>JArr\<close> a list. A float is kept as its literal.
\<close>

datatype json =
    JNull
  | JBool bool
  | JInt int
  | JFloat string
  | JStr string
  | JArr "json list"
  | JObj "(string \<times> json) list"

section \<open>Bytes and text\<close>

text \<open>
  A byte string (\<^verbatim>\<open>bytes\<close>) is a list of characters, one per byte. A text (\<^verbatim>\<open>str\<close>) is
  represented by its UTF-8 encoding, so that a literal stands for itself; the locale's
  encoding, in which text is written to a file and printed, is taken to be UTF-8.

  A byte string is read as a sequence of units. A unit is the encoding of one code
  point, or, where the bytes are ill-formed, the longest run that starts a well-formed
  encoding (at least one byte). After the lead bytes E0, ED, F0 and F4 the second byte
  is restricted, which excludes overlong forms, surrogates and values above 10FFFF.
\<close>

definition byte :: "char \<Rightarrow> nat" where
  "byte c = of_char c"

definition continuation :: "char \<Rightarrow> bool" where
  "continuation c = (0x80 \<le> byte c \<and> byte c \<le> 0xBF)"

definition second_ok :: "char \<Rightarrow> char \<Rightarrow> bool" where
  "second_ok a b =
     (if byte a = 0xE0 then 0xA0 \<le> byte b \<and> byte b \<le> 0xBF
      else if byte a = 0xED then 0x80 \<le> byte b \<and> byte b \<le> 0x9F
      else if byte a = 0xF0 then 0x90 \<le> byte b \<and> byte b \<le> 0xBF
      else if byte a = 0xF4 then 0x80 \<le> byte b \<and> byte b \<le> 0x8F
      else continuation b)"

text \<open>The length of the encoding that a lead byte announces; 0 for a byte that leads none.\<close>

definition sequence_length :: "char \<Rightarrow> nat" where
  "sequence_length a =
     (if byte a < 0x80 then 1
      else if 0xC2 \<le> byte a \<and> byte a \<le> 0xDF then 2
      else if 0xE0 \<le> byte a \<and> byte a \<le> 0xEF then 3
      else if 0xF0 \<le> byte a \<and> byte a \<le> 0xF4 then 4
      else 0)"

fun continuations :: "nat \<Rightarrow> string \<Rightarrow> nat" where
  "continuations (Suc k) (b # bs) = (if continuation b then Suc (continuations k bs) else 0)"
| "continuations k bs = 0"

text \<open>How many of the bytes after a lead byte belong to its unit.\<close>

definition followers :: "char \<Rightarrow> string \<Rightarrow> nat" where
  "followers a bs =
     (if sequence_length a \<le> 1 then 0
      else (case bs of
              [] \<Rightarrow> 0
            | b # r \<Rightarrow> if second_ok a b then Suc (continuations (sequence_length a - 2) r) else 0))"

text \<open>The units of a byte string, each with the flag that it is a well-formed encoding.\<close>

fun code_points :: "string \<Rightarrow> (bool \<times> string) list" where
  "code_points [] = []"
| "code_points (a # bs) =
     (sequence_length a = Suc (followers a bs), a # take (followers a bs) bs)
       # code_points (drop (followers a bs) bs)"

definition well_formed_utf8 :: "string \<Rightarrow> bool" where
  "well_formed_utf8 b = list_all fst (code_points b)"

text \<open>\<^verbatim>\<open>bytes.decode()\<close>: strict UTF-8.\<close>

definition decode :: "string \<Rightarrow> error + string" where
  "decode b = (if well_formed_utf8 b then Inr b else Inl UnicodeDecodeError)"

text \<open>
  Decoding that replaces every ill-formed unit by the code point FFFD. This is how the
  HTTP client computes \<^verbatim>\<open>resp.text\<close> from the body of a response that declares no
  other character set.
\<close>

definition replacement :: string where
  "replacement = [CHR 0xEF, CHR 0xBF, CHR 0xBD]"

definition decode_replace :: "string \<Rightarrow> string" where
  "decode_replace b = concat (map (\<lambda>u. if fst u then snd u else replacement) (code_points b))"

text \<open>
  \<^verbatim>\<open>str.strip()\<close> drops the leading and the trailing white space. The white-space code
  points are 9 to D, 1C to 20, 85, A0, 1680, 2000 to 200A, 2028, 2029, 202F, 205F and
  3000, here in their encodings.
\<close>

definition white_space :: "string list" where
  "white_space =
     map (\<lambda>c. [c]) [CHR 0x09, CHR 0x0A, CHR 0x0B, CHR 0x0C, CHR 0x0D,
                     CHR 0x1C, CHR 0x1D, CHR 0x1E, CHR 0x1F, CHR 0x20]
     @ [[CHR 0xC2, CHR 0x85], [CHR 0xC2, CHR 0xA0], [CHR 0xE1, CHR 0x9A, CHR 0x80]]
     @ map (\<lambda>c. [CHR 0xE2, CHR 0x80, c])
         [CHR 0x80, CHR 0x81, CHR 0x82, CHR 0x83, CHR 0x84, CHR 0x85, CHR 0x86, CHR 0x87,
          CHR 0x88, CHR 0x89, CHR 0x8A, CHR 0xA8, CHR 0xA9, CHR 0xAF]
     @ [[CHR 0xE2, CHR 0x81, CHR 0x9F], [CHR 0xE3, CHR 0x80, CHR 0x80]]"

definition is_space :: "bool \<times> string \<Rightarrow> bool" where
  "is_space u = (snd u \<in> set white_space)"

definition strip :: "string \<Rightarrow> string" where
  "strip s = concat (map snd (rev (dropWhile is_space (rev (dropWhile is_space (code_points s))))))"

section \<open>The code generator bridge (\<^verbatim>\<open>cli_helper.py\<close>)\<close>

text \<open>
  \<^verbatim>\<open>result['code']\<close> on the value that \<^verbatim>\<open>json.loads\<close> returned: a dict raises
  \<^verbatim>\<open>KeyError\<close> for a missing key; a list or a string raises \<^verbatim>\<open>TypeError\<close> for an
  index that is a string, and the other values are not subscriptable at all.
\<close>

fun getitem :: "json \<Rightarrow> string \<Rightarrow> error + json" where
  "getitem (JObj kvs) k = (case map_of kvs k of None \<Rightarrow> Inl (KeyError k) | Some v \<Rightarrow> Inr v)"
| "getitem _ k = Inl TypeError"

text \<open>
  \<^verbatim>\<open>subprocess.check_output\<close> runs the generator as a child process; the child is
  given here by what it does: its exit status and the bytes it wrote to its standard
  output. A non-zero exit status raises \<^verbatim>\<open>CalledProcessError\<close>; output that is not
  UTF-8 raises \<^verbatim>\<open>UnicodeDecodeError\<close>. The JSON parser of the Python library is a
  parameter \<open>loads\<close> (\<open>Inl\<close> is \<^verbatim>\<open>JSONDecodeError\<close>).
\<close>

definition run_child_process :: "int \<times> string \<Rightarrow> error + string" where
  "run_child_process child =
     (if fst child \<noteq> 0 then Inl (CalledProcessError (fst child))
      else (case decode (snd child) of
              Inl e \<Rightarrow> Inl e
            | Inr output \<Rightarrow> Inr (strip output)))"

definition generate_diagram_code_in_child_process ::
  "(string \<Rightarrow> unit + json) \<Rightarrow> (string \<Rightarrow> int \<times> string) \<Rightarrow> string \<Rightarrow> error + (json \<times> json)" where
  "generate_diagram_code_in_child_process loads child_process view =
     (case run_child_process (child_process view) of
        Inl e \<Rightarrow> Inl e
      | Inr child_output \<Rightarrow>
          (case loads child_output of
             Inl _ \<Rightarrow> Inl JSONDecodeError
           | Inr result \<Rightarrow>
               (case getitem result ''code'' of
                  Inl e \<Rightarrow> Inl e
                | Inr code \<Rightarrow>
                    (case getitem result ''imported_modules'' of
                       Inl e \<Rightarrow> Inl e
                     | Inr imported_modules \<Rightarrow> Inr (code, imported_modules)))))"

text \<open>
  The spec's reading of the child's output: a structured record that holds a code blob
  (a string) and a list of module identifiers (a list of strings).
\<close>

fun is_module_list :: "json \<Rightarrow> bool" where
  "is_module_list (JArr xs) = list_all (\<lambda>x. case x of JStr _ \<Rightarrow> True | _ \<Rightarrow> False) xs"
| "is_module_list _ = False"

fun is_code_blob :: "json \<Rightarrow> bool" where
  "is_code_blob (JStr _) = True"
| "is_code_blob _ = False"

fun is_object :: "json \<Rightarrow> bool" where
  "is_object (JObj kvs) = True"
| "is_object _ = False"



text \<open>
  Modelled from the spec: the generator child process \<^verbatim>\<open>pystructurizr.generator\<close>, which
  \<^verbatim>\<open>check_output\<close> runs and which is not among the sources. It is invoked with the view
  identifier. For a valid view it exits with status 0 and has written to its standard
  output a single record, serialised as text, with the two fields \<^verbatim>\<open>code\<close> (a string,
  the diagram payload) and \<^verbatim>\<open>imported_modules\<close> (a sequence of strings, the modules
  the generation touched, the view's own module always among them). For any other view
  it exits with a non-zero status. The serialiser \<open>dumps\<close>, the valid views, the
  payload and the modules touched are parameters.
\<close>

definition generator_record :: "(string \<Rightarrow> string) \<Rightarrow> (string \<Rightarrow> string list) \<Rightarrow> string \<Rightarrow> json" where
  "generator_record code_of touched view =
     JObj [(''code'', JStr (code_of view)),
           (''imported_modules'', JArr (map JStr (List.insert view (touched view))))]"

definition generator_dump ::
  "(json \<Rightarrow> string) \<Rightarrow> (string \<Rightarrow> bool) \<Rightarrow> (string \<Rightarrow> string) \<Rightarrow> (string \<Rightarrow> string list)
     \<Rightarrow> string \<Rightarrow> int \<times> string" where
  "generator_dump dumps valid code_of touched view =
     (if valid view then (0, dumps (generator_record code_of touched view)) else (1, []))"

section \<open>Paths and the file system\<close>

text \<open>
  A \<^verbatim>\<open>pathlib.Path\<close> on POSIX is a root (empty, one separator or two) and a list
  of parts. Parsing a string splits it at the separator and drops the empty parts and
  the parts that are a single dot; exactly two leading separators give the root of two
  separators, any other positive number the root of one.
\<close>

record path =
  root :: string
  parts :: "string list"

fun split_sep :: "string \<Rightarrow> string list" where
  "split_sep [] = [[]]"
| "split_sep (c # cs) =
     (if c = CHR ''/'' then [] # split_sep cs
      else (case split_sep cs of [] \<Rightarrow> [[c]] | x # xs \<Rightarrow> (c # x) # xs))"

definition parse_root :: "string \<Rightarrow> string" where
  "parse_root s =
     (let n = length (takeWhile (\<lambda>c. c = CHR ''/'') s)
      in if n = 0 then [] else if n = 2 then ''//'' else ''/'')"

definition Path :: "string \<Rightarrow> path" where
  "Path s = \<lparr>root = parse_root s, parts = filter (\<lambda>x. x \<noteq> [] \<and> x \<noteq> ''.'') (split_sep s)\<rparr>"

fun join_sep :: "string list \<Rightarrow> string" where
  "join_sep [] = []"
| "join_sep [x] = x"
| "join_sep (x # y # ys) = x @ ''/'' @ join_sep (y # ys)"

definition str_path :: "path \<Rightarrow> string" where
  "str_path p = (if root p = [] \<and> parts p = [] then ''.'' else root p @ join_sep (parts p))"

text \<open>\<^verbatim>\<open>p / s\<close>: an absolute right operand replaces the left one.\<close>

definition truediv :: "path \<Rightarrow> string \<Rightarrow> path" where
  "truediv p s =
     (let q = Path s
      in if root q \<noteq> [] then q else \<lparr>root = root p, parts = parts p @ parts q\<rparr>)"

definition parent :: "path \<Rightarrow> path" where
  "parent p = p\<lparr>parts := butlast (parts p)\<rparr>"

text \<open>\<^verbatim>\<open>shutil._basename\<close>: the text after the last separator, trailing separators dropped.\<close>

definition basename :: "string \<Rightarrow> string" where
  "basename s = last (split_sep (rev (dropWhile (\<lambda>c. c = CHR ''/'') (rev s))))"

text \<open>\<^verbatim>\<open>view.replace(".", "_")\<close>\<close>

definition replace_dots :: "string \<Rightarrow> string" where
  "replace_dots view = map (\<lambda>c. if c = CHR ''.'' then CHR ''_'' else c) view"

text \<open>
  The file system is a map from absolute part lists to nodes. A relative path is
  resolved against the working directory. Symbolic links, permissions and the
  parent-directory part (two dots) are outside the model: the statements below that
  read the file system at a user-supplied path ask for a path without that part.
\<close>

datatype node = File string | Dir

text \<open>
  A response of the rendering service: its status, its body (bytes) and the line that
  printing the response object gives.
\<close>

record response =
  status_code :: int
  content :: string
  repr_text :: string

datatype http_outcome = Unreachable | Responded response

text \<open>
  The world: the file system, the working directory, the lines written to standard
  output, and what the environment supplies: the names \<^verbatim>\<open>tempfile.mkdtemp\<close> draws,
  the generator child process (exit status and output for a view), the rendering
  service, whether a rename crosses devices, the location of the package
  (\<^verbatim>\<open>__file__\<close>), the processes started, the cloud-storage collaborator (for the
  credentials it is created with, an error or its uploader), and the click context
  object.
\<close>

record world =
  fs :: "string list \<rightharpoonup> node"
  cwd :: "string list"
  stdout :: "string list"
  tmp_names :: "string list"
  child_process :: "string \<Rightarrow> int \<times> string"
  http_post :: "json \<Rightarrow> http_outcome"
  exdev :: bool
  script_file :: string
  spawned :: "string list"
  create_cloud_storage :: "string \<Rightarrow> error + (path \<Rightarrow> string \<Rightarrow> string \<Rightarrow> error + string)"
  ctx_obj :: "(string \<rightharpoonup> path) option"

definition echo :: "string \<Rightarrow> world \<Rightarrow> world" where
  "echo line w = w\<lparr>stdout := stdout w @ [line]\<rparr>"

definition resolve :: "world \<Rightarrow> path \<Rightarrow> string list" where
  "resolve w p = (if root p = [] then cwd w else []) @ parts p"

definition is_file :: "world \<Rightarrow> path \<Rightarrow> bool" where
  "is_file w p = (case fs w (resolve w p) of Some (File _) \<Rightarrow> True | _ \<Rightarrow> False)"

definition is_dir :: "world \<Rightarrow> path \<Rightarrow> bool" where
  "is_dir w p = (fs w (resolve w p) = Some Dir)"

definition exists_path :: "world \<Rightarrow> path \<Rightarrow> bool" where
  "exists_path w p = (fs w (resolve w p) \<noteq> None)"

text \<open>\<^verbatim>\<open>os.mkdir\<close>: the parent must be a directory and the path itself must not exist.\<close>

definition os_mkdir :: "world \<Rightarrow> path \<Rightarrow> error + world" where
  "os_mkdir w p =
     (let k = resolve w p
      in if parts p = [] then (if fs w k = None then Inl FileNotFoundError else Inl FileExistsError)
         else (case fs w (butlast k) of
                 None \<Rightarrow> Inl FileNotFoundError
               | Some (File _) \<Rightarrow> Inl NotADirectoryError
               | Some Dir \<Rightarrow>
                   (case fs w k of
                      Some _ \<Rightarrow> Inl FileExistsError
                    | None \<Rightarrow> Inr (w\<lparr>fs := (fs w)(k \<mapsto> Dir)\<rparr>))))"

text \<open>
  \<^verbatim>\<open>Path.mkdir(parents=False, exist_ok=True)\<close>: \<^verbatim>\<open>FileNotFoundError\<close> is raised again;
  any other \<^verbatim>\<open>OSError\<close> is swallowed when the path is a directory.
\<close>

definition mkdir_exist_ok :: "world \<Rightarrow> path \<Rightarrow> error + world" where
  "mkdir_exist_ok w p =
     (case os_mkdir w p of
        Inr w' \<Rightarrow> Inr w'
      | Inl e \<Rightarrow>
          (if e = FileNotFoundError then Inl e
           else if is_dir w p then Inr w else Inl e))"

text \<open>
  \<^verbatim>\<open>Path.mkdir(parents=True, exist_ok=True)\<close>: on \<^verbatim>\<open>FileNotFoundError\<close> the parent is
  created first (unless the path is its own parent), then the path itself.
\<close>

function mkdir_parents :: "world \<Rightarrow> path \<Rightarrow> error + world" where
  "mkdir_parents w p =
     (case os_mkdir w p of
        Inr w' \<Rightarrow> Inr w'
      | Inl e \<Rightarrow>
          (if e = FileNotFoundError then
             (if parts p = [] then Inl e
              else (case mkdir_parents w (parent p) of
                      Inl e' \<Rightarrow> Inl e'
                    | Inr w1 \<Rightarrow> mkdir_exist_ok w1 p))
           else if is_dir w p then Inr w else Inl e))"
  by pat_completeness auto
termination
  by (relation "measure (\<lambda>(w, p). length (parts p))") (auto simp: parent_def)

declare mkdir_parents.simps [simp del]

text \<open>Opening a file for writing and writing the text: the file is created or replaced.\<close>

definition write_file :: "world \<Rightarrow> path \<Rightarrow> string \<Rightarrow> error + world" where
  "write_file w p text =
     (let k = resolve w p
      in if parts p = [] then Inl IsADirectoryError
         else (case fs w (butlast k) of
                 None \<Rightarrow> Inl FileNotFoundError
               | Some (File _) \<Rightarrow> Inl NotADirectoryError
               | Some Dir \<Rightarrow>
                   (case fs w k of
                      Some Dir \<Rightarrow> Inl IsADirectoryError
                    | _ \<Rightarrow> Inr (w\<lparr>fs := (fs w)(k \<mapsto> File text)\<rparr>))))"

text \<open>
  \<^verbatim>\<open>os.rename\<close> of a regular file: it replaces a file at the destination and fails on a
  directory there; renaming a file onto itself changes nothing. Across devices it
  fails. The source of every move and copy in this program is a regular file (the one
  \<^verbatim>\<open>generate_svg\<close> has written, or \<^verbatim>\<open>index.html\<close>); moving a directory tree is not
  modelled and is answered by \<open>IsADirectoryError\<close>.
\<close>

definition os_rename :: "world \<Rightarrow> path \<Rightarrow> path \<Rightarrow> error + world" where
  "os_rename w src dst =
     (let ks = resolve w src; kd = resolve w dst
      in if exdev w then Inl CrossDeviceError
         else (case fs w ks of
                 None \<Rightarrow> Inl FileNotFoundError
               | Some Dir \<Rightarrow> Inl IsADirectoryError
               | Some (File c) \<Rightarrow>
                   (case fs w (butlast kd) of
                      None \<Rightarrow> Inl FileNotFoundError
                    | Some (File _) \<Rightarrow> Inl NotADirectoryError
                    | Some Dir \<Rightarrow>
                        (case fs w kd of
                           Some Dir \<Rightarrow> Inl IsADirectoryError
                         | _ \<Rightarrow> Inr (w\<lparr>fs := ((fs w)(ks := None))(kd \<mapsto> File c)\<rparr>)))))"

definition os_unlink :: "world \<Rightarrow> path \<Rightarrow> error + world" where
  "os_unlink w p =
     (let k = resolve w p
      in case fs w k of
           None \<Rightarrow> Inl FileNotFoundError
         | Some Dir \<Rightarrow> Inl IsADirectoryError
         | Some (File _) \<Rightarrow> Inr (w\<lparr>fs := (fs w)(k := None)\<rparr>))"

text \<open>
  \<^verbatim>\<open>shutil.copy\<close> and \<^verbatim>\<open>shutil.copy2\<close>: a destination that is a directory receives the
  file under the source's base name; copying a file onto itself is an error.
\<close>

definition shutil_copy :: "world \<Rightarrow> string \<Rightarrow> path \<Rightarrow> error + world" where
  "shutil_copy w src dst =
     (let dst' = (if is_dir w dst then truediv dst (last (split_sep src)) else dst);
          ks = resolve w (Path src)
      in if fs w ks \<noteq> None \<and> ks = resolve w dst' then Inl ShutilError
         else (case fs w ks of
                 None \<Rightarrow> Inl FileNotFoundError
               | Some Dir \<Rightarrow> Inl IsADirectoryError
               | Some (File c) \<Rightarrow> write_file w dst' c))"

text \<open>
  \<^verbatim>\<open>shutil.move\<close>: when the destination is an existing directory the source is moved
  inside it, under its own base name, unless that name exists there. The move is a
  rename; when the rename fails, the file is copied and the source removed.
\<close>

definition move_to :: "world \<Rightarrow> string \<Rightarrow> path \<Rightarrow> error + world" where
  "move_to w src real_dst =
     (case os_rename w (Path src) real_dst of
        Inr w' \<Rightarrow> Inr w'
      | Inl _ \<Rightarrow>
          (case shutil_copy w src real_dst of
             Inl e \<Rightarrow> Inl e
           | Inr w1 \<Rightarrow> os_unlink w1 (Path src)))"

definition shutil_move :: "world \<Rightarrow> string \<Rightarrow> path \<Rightarrow> error + world" where
  "shutil_move w src dst =
     (if is_dir w dst then
        (let real_dst = truediv dst (basename src)
         in if exists_path w real_dst then Inl ShutilError else move_to w src real_dst)
      else move_to w src dst)"

text \<open>
  \<^verbatim>\<open>tempfile.mkdtemp\<close> tries the names it draws until \<^verbatim>\<open>os.mkdir\<close> accepts one;
  \<^verbatim>\<open>FileExistsError\<close> means the next name, any other error is raised. Leaving the
  \<^verbatim>\<open>with\<close> block removes the directory and all that is below it.
\<close>

fun mkdtemp_loop :: "world \<Rightarrow> string list \<Rightarrow> error + (string \<times> world)" where
  "mkdtemp_loop w [] = Inl FileExistsError"
| "mkdtemp_loop w (name # names) =
     (case os_mkdir w (Path name) of
        Inr w' \<Rightarrow> Inr (name, w'\<lparr>tmp_names := names\<rparr>)
      | Inl e \<Rightarrow> (if e = FileExistsError then mkdtemp_loop w names else Inl e))"

definition mkdtemp :: "world \<Rightarrow> error + (string \<times> world)" where
  "mkdtemp w = mkdtemp_loop w (tmp_names w)"

definition rmtree :: "world \<Rightarrow> path \<Rightarrow> world" where
  "rmtree w p = w\<lparr>fs := (\<lambda>k. if prefix (resolve w p) k then None else fs w k)\<rparr>"

section \<open>The renderer client (\<^verbatim>\<open>cli_helper.py\<close>)\<close>

text \<open>
  \<^verbatim>\<open>client.post(url, data=diagram_code)\<close>: the client library encodes the argument
  before it sends anything. A dict is form data, a string is the body, \<^verbatim>\<open>None\<close> is no
  body; a number or a truth value is refused with \<^verbatim>\<open>TypeError\<close>, and a list, as a
  synchronous stream of bytes, with \<^verbatim>\<open>RuntimeError\<close> by the asynchronous client.
\<close>

fun encode_request :: "json \<Rightarrow> error + json" where
  "encode_request (JBool b) = Inl TypeError"
| "encode_request (JInt i) = Inl TypeError"
| "encode_request (JFloat f) = Inl TypeError"
| "encode_request (JArr xs) = Inl RuntimeError"
| "encode_request d = Inr d"

text \<open>
  The body of a response, \<^verbatim>\<open>resp.content\<close>, is a byte string. On a status other than
  200 the response is printed, then the body, if it is not empty, is decoded strictly
  and printed, and the error is raised. On 200 the text of the response, \<^verbatim>\<open>resp.text\<close>,
  is written to the file.
\<close>

definition generate_svg :: "world \<Rightarrow> json \<Rightarrow> string \<Rightarrow> (error + string) \<times> world" where
  "generate_svg w diagram_code tmp_folder =
     (case encode_request diagram_code of
        Inl e \<Rightarrow> (Inl e, w)
      | Inr data \<Rightarrow>
          (case http_post w data of
             Unreachable \<Rightarrow> (Inl TransportError, w)
           | Responded resp \<Rightarrow>
               (if status_code resp \<noteq> 200 then
                  (let w1 = echo (repr_text resp) w
                   in if content resp \<noteq> [] then
                        (case decode (content resp) of
                           Inl e \<Rightarrow> (Inl e, w1)
                         | Inr body \<Rightarrow> (Inl (ClickException ''Failed to create diagram''), echo body w1))
                      else (Inl (ClickException ''Failed to create diagram''), w1))
                else
                  (let svg_file_path = tmp_folder @ ''/diagram.svg''
                   in case write_file w (Path svg_file_path) (decode_replace (content resp)) of
                        Inl e \<Rightarrow> (Inl e, w)
                      | Inr w' \<Rightarrow> (Inr svg_file_path, w')))))"

section \<open>The commands (\<^verbatim>\<open>cli.py\<close>)\<close>

text \<open>
  The output placer, lines 76 to 90 of \<^verbatim>\<open>build\<close>: resolve the destination, create the
  directory, move the rendered file.
\<close>

definition resolve_destination :: "world \<Rightarrow> string \<Rightarrow> string \<Rightarrow> path \<times> path" where
  "resolve_destination w view file_path =
     (let svg_file_path = Path file_path
      in if is_file w svg_file_path then (parent svg_file_path, svg_file_path)
         else (svg_file_path, truediv svg_file_path (replace_dots view @ ''.svg'')))"

definition place :: "world \<Rightarrow> string \<Rightarrow> string \<Rightarrow> string \<Rightarrow> (error + path) \<times> world" where
  "place w view file_path temp_svg_file_path =
     (case resolve_destination w view file_path of
        (base_dir, svg_file_path) \<Rightarrow>
          (case mkdir_parents w base_dir of
             Inl e \<Rightarrow> (Inl e, w)
           | Inr w1 \<Rightarrow>
               (case shutil_move w1 temp_svg_file_path svg_file_path of
                  Inl e \<Rightarrow> (Inl e, w1)
                | Inr w2 \<Rightarrow> (Inr svg_file_path, w2))))"

text \<open>\<^verbatim>\<open>ctx.ensure_object(dict)\<close> followed by the assignment of the key.\<close>

definition set_svg_file_path :: "path \<Rightarrow> world \<Rightarrow> world" where
  "set_svg_file_path p w =
     w\<lparr>ctx_obj := Some ((case ctx_obj w of None \<Rightarrow> Map.empty | Some d \<Rightarrow> d)(''svg_file_path'' \<mapsto> p))\<rparr>"

definition build_async_behavior ::
  "(string \<Rightarrow> unit + json) \<Rightarrow> string \<Rightarrow> string \<Rightarrow> string \<Rightarrow> world \<Rightarrow> (error + unit) \<times> world" where
  "build_async_behavior loads view file_path tmp_folder w =
     (case generate_diagram_code_in_child_process loads (child_process w) view of
        Inl e \<Rightarrow> (Inl e, w)
      | Inr (diagram_code, _) \<Rightarrow>
          (case generate_svg w diagram_code tmp_folder of
             (Inl e, w1) \<Rightarrow> (Inl e, w1)
           | (Inr temp_svg_file_path, w1) \<Rightarrow>
               (case place w1 view file_path temp_svg_file_path of
                  (Inl e, w2) \<Rightarrow> (Inl e, w2)
                | (Inr svg_file_path, w2) \<Rightarrow>
                    (Inr (), echo (str_path svg_file_path) (set_svg_file_path svg_file_path w2)))))"

definition build ::
  "(string \<Rightarrow> unit + json) \<Rightarrow> string \<Rightarrow> string \<Rightarrow> world \<Rightarrow> (error + unit) \<times> world" where
  "build loads view file_path w =
     (case mkdtemp w of
        Inl e \<Rightarrow> (Inl e, w)
      | Inr (tmp_folder, w1) \<Rightarrow>
          (case build_async_behavior loads view file_path tmp_folder w1 of
             (r, w2) \<Rightarrow> (r, rmtree w2 (Path tmp_folder))))"

text \<open>
  \<^verbatim>\<open>upload\<close>: subscripting \<^verbatim>\<open>ctx.obj\<close> raises \<^verbatim>\<open>TypeError\<close> when it is \<^verbatim>\<open>None\<close> and
  \<^verbatim>\<open>KeyError\<close> when the key is absent.
\<close>

definition upload :: "string \<Rightarrow> string \<Rightarrow> string \<Rightarrow> world \<Rightarrow> (error + unit) \<times> world" where
  "upload gcs_credentials bucket_name object_name w =
     (case ctx_obj w of
        None \<Rightarrow> (Inl TypeError, w)
      | Some obj \<Rightarrow>
          (case obj ''svg_file_path'' of
             None \<Rightarrow> (Inl (KeyError ''svg_file_path''), w)
           | Some svg_file_path \<Rightarrow>
               (let w1 = echo (''Uploading '' @ str_path svg_file_path) w
                in case create_cloud_storage w1 gcs_credentials of
                     Inl e \<Rightarrow> (Inl e, w1)
                   | Inr upload_file \<Rightarrow>
                       (case upload_file svg_file_path bucket_name object_name of
                          Inl e \<Rightarrow> (Inl e, w1)
                        | Inr svg_file_url \<Rightarrow> (Inr (), echo svg_file_url w1)))))"






section \<open>Concrete scenarios\<close>

text \<open>
  Inputs on which the definitions are run below. The generator prints one line; the
  parser is given on the outputs that occur.
\<close>

definition example_view :: string where
  "example_view = ''examples.single_file_example''"

definition example_output :: string where
  \<open>example_output =
     ''{"code": "workspace {}", "imported_modules": ["examples.single_file_example"]}''\<close>

definition example_record :: json where
  "example_record =
     JObj [(''code'', JStr ''workspace {}''),
           (''imported_modules'', JArr [JStr ''examples.single_file_example''])]"

definition untyped_output :: string where
  \<open>untyped_output = ''{"code": 1, "imported_modules": 2}''\<close>

definition untyped_record :: json where
  "untyped_record = JObj [(''code'', JInt 1), (''imported_modules'', JInt 2)]"

definition extra_output :: string where
  \<open>extra_output = ''{"extra": null, "code": {}, "imported_modules": "x"}''\<close>

definition extra_record :: json where
  "extra_record =
     JObj [(''extra'', JNull), (''code'', JObj []), (''imported_modules'', JStr ''x'')]"

definition list_output :: string where
  "list_output = ''[1]''"

definition list_record :: json where
  "list_record = JArr [JInt 1]"

definition no_code_output :: string where
  \<open>no_code_output = ''{"imported_modules": []}''\<close>

definition no_code_record :: json where
  "no_code_record = JObj [(''imported_modules'', JArr [])]"

definition code_only_output :: string where
  \<open>code_only_output = ''{"code": "workspace {}"}''\<close>

definition code_only_record :: json where
  "code_only_record = JObj [(''code'', JStr ''workspace {}'')]"

definition traceback_output :: string where
  "traceback_output = ''Traceback (most recent call last):''"

definition binary_output :: string where
  "binary_output = [CHR 0xFF, CHR 0xFE]"

definition sample_loads :: "string \<Rightarrow> unit + json" where
  "sample_loads s =
     (if s = example_output then Inr example_record
      else if s = untyped_output then Inr untyped_record
      else if s = extra_output then Inr extra_record
      else if s = list_output then Inr list_record
      else if s = no_code_output then Inr no_code_record
      else if s = code_only_output then Inr code_only_record
      else Inl ())"

definition child_printing :: "string \<Rightarrow> string \<Rightarrow> int \<times> string" where
  "child_printing out view = (0, out @ [CHR 0x0A])"


text \<open>A serialiser, given on the record of the example.\<close>

definition sample_dumps :: "json \<Rightarrow> string" where
  "sample_dumps r = (if r = example_record then example_output else ''null'')"

text \<open>
  A small file system: the root, \<^verbatim>\<open>/tmp\<close>, the working directory \<^verbatim>\<open>/home/user\<close> and the
  package directory with its \<^verbatim>\<open>index.html\<close>. The rendering service answers 200 with an
  image, or 500 with a diagnostic text. The cloud-storage collaborator returns a URL.
\<close>

definition fs0 :: "string list \<rightharpoonup> node" where
  "fs0 = [[] \<mapsto> Dir, [''tmp''] \<mapsto> Dir, [''home''] \<mapsto> Dir, [''home'', ''user''] \<mapsto> Dir,
          [''pkg''] \<mapsto> Dir, [''pkg'', ''index.html''] \<mapsto> File ''<html></html>'']"

definition render_ok :: "json \<Rightarrow> http_outcome" where
  "render_ok code =
     Responded \<lparr>status_code = 200, content = ''<svg></svg>'', repr_text = ''<Response [200 OK]>''\<rparr>"

definition render_500 :: "json \<Rightarrow> http_outcome" where
  "render_500 code =
     Responded \<lparr>status_code = 500, content = ''bad syntax'',
                repr_text = ''<Response [500 Internal Server Error]>''\<rparr>"

definition gcs_upload_file :: "path \<Rightarrow> string \<Rightarrow> string \<Rightarrow> error + string" where
  "gcs_upload_file p bucket_name object_name =
     Inr (''https://storage.googleapis.com/'' @ bucket_name @ ''/'' @ object_name)"

definition gcs :: "string \<Rightarrow> error + (path \<Rightarrow> string \<Rightarrow> string \<Rightarrow> error + string)" where
  "gcs credentials = Inr gcs_upload_file"

definition world0 :: world where
  "world0 =
     \<lparr>fs = fs0, cwd = [''home'', ''user''], stdout = [], tmp_names = [''/tmp/tmpa1b2c3d4''],
      child_process = child_printing example_output, http_post = render_ok, exdev = False,
      script_file = ''/pkg/cli.py'', spawned = [], create_cloud_storage = gcs,
      ctx_obj = None\<rparr>"

text \<open>The same world inside the \<^verbatim>\<open>with\<close> block: the temporary directory exists.\<close>

definition world_tmp :: world where
  "world_tmp = world0\<lparr>fs := fs0([''tmp'', ''tmpa1b2c3d4''] \<mapsto> Dir), tmp_names := []\<rparr>"

text \<open>Whether a returned module value is a list that holds the view's module.\<close>

fun includes_module :: "json \<Rightarrow> string \<Rightarrow> bool" where
  "includes_module (JArr xs) v = (JStr v \<in> set xs)"
| "includes_module _ v = False"

section \<open>Notions used in the statements\<close>

text \<open>Creating directories only adds directories at places that were empty.\<close>

definition adds_dirs :: "world \<Rightarrow> world \<Rightarrow> bool" where
  "adds_dirs w w' \<longleftrightarrow>
     w' = w\<lparr>fs := fs w'\<rparr> \<and> (\<forall>k. fs w' k = fs w k \<or> (fs w k = None \<and> fs w' k = Some Dir))"

text \<open>
  The names drawn for the temporary directory are unrelated to a path the user gave:
  each name has at least one part, and the path does not lie at or below it.
\<close>

definition tmp_apart :: "world \<Rightarrow> path \<Rightarrow> bool" where
  "tmp_apart w p \<longleftrightarrow>
     (\<forall>t \<in> set (tmp_names w). parts (Path t) \<noteq> [] \<and> \<not> prefix (resolve w (Path t)) (resolve w p))"

text \<open>A path without the parent-directory part.\<close>

definition plain :: "path \<Rightarrow> bool" where
  "plain p \<longleftrightarrow> ''..'' \<notin> set (parts p)"

text \<open>The ancestor of a path that keeps its first \<open>j\<close> parts.\<close>

definition ancestor :: "path \<Rightarrow> nat \<Rightarrow> path" where
  "ancestor p j = p\<lparr>parts := take j (parts p)\<rparr>"

text \<open>
  When the chain of ancestors exists as directories down to depth \<open>m\<close> and nothing
  exists below, \<^verbatim>\<open>mkdir(parents=True, exist_ok=True)\<close> succeeds; it creates the rest of
  the chain and changes nothing else.
\<close>

definition chain_created :: "world \<Rightarrow> path \<Rightarrow> nat \<Rightarrow> world" where
  "chain_created w p m =
     w\<lparr>fs := (\<lambda>k. if \<exists>j. m < j \<and> j \<le> length (parts p) \<and> k = resolve w (ancestor p j)
                    then Some Dir else fs w k)\<rparr>"

text \<open>Where \<^verbatim>\<open>shutil.move\<close> puts the file.\<close>

definition move_target :: "world \<Rightarrow> string \<Rightarrow> path \<Rightarrow> path" where
  "move_target w src dst = (if is_dir w dst then truediv dst (basename src) else dst)"


text \<open>The rendering service has answered 500.\<close>

definition world_500 :: world where
  "world_500 = world_tmp\<lparr>http_post := render_500\<rparr>"

text \<open>The build of the specification's scenario.\<close>

definition example_build :: "(error + unit) \<times> world" where
  "example_build = build sample_loads example_view ''out/'' world0"



text \<open>
  A world where the destination \<^verbatim>\<open>diagram.svg\<close> exists as a regular file, a first build
  onto it, and a second build that starts from what the first has left, with a fresh
  temporary name.
\<close>

definition world_file :: world where
  "world_file = world0\<lparr>fs := fs0([''home'', ''user'', ''diagram.svg''] \<mapsto> File ''old'')\<rparr>"

definition first_build :: "(error + unit) \<times> world" where
  "first_build = build sample_loads example_view ''diagram.svg'' world_file"

definition world_again :: world where
  "world_again = (snd first_build)\<lparr>tmp_names := [''/tmp/tmpe5f6g7h8'']\<rparr>"

definition second_build :: "(error + unit) \<times> world" where
  "second_build = build sample_loads example_view ''diagram.svg'' world_again"

text \<open>Plain text: every byte is below 80 and encodes itself.\<close>

definition ascii :: "string \<Rightarrow> bool" where
  "ascii s = list_all (\<lambda>c. byte c < 0x80) s"

text \<open>White space in plain text.\<close>

definition is_space_char :: "char \<Rightarrow> bool" where
  "is_space_char c = ([c] \<in> set white_space)"

text \<open>
  The rendering service answers with a body that is not UTF-8: with the status 500, and
  with the status 200.
\<close>

definition render_500_binary :: "json \<Rightarrow> http_outcome" where
  "render_500_binary code =
     Responded \<lparr>status_code = 500, content = [CHR 0xFF, CHR 0xFE],
                repr_text = ''<Response [500 Internal Server Error]>''\<rparr>"

definition render_ok_binary :: "json \<Rightarrow> http_outcome" where
  "render_ok_binary code =
     Responded \<lparr>status_code = 200, content = [CHR 0xFF], repr_text = ''<Response [200 OK]>''\<rparr>"

definition world_500_binary :: world where
  "world_500_binary = world_tmp\<lparr>http_post := render_500_binary\<rparr>"

definition world_ok_binary :: world where
  "world_ok_binary = world_tmp\<lparr>http_post := render_ok_binary\<rparr>"

section \<open>Properties of the code generator bridge\<close>

section \<open>Bytes and text\<close>

lemma concat_code_points: "concat (map snd (code_points s)) = s"
  by (induction s rule: code_points.induct) simp_all

lemma decode_replace_well_formed: "well_formed_utf8 s \<Longrightarrow> decode_replace s = s"
proof -
  assume "well_formed_utf8 s"
  then have "map (\<lambda>u. if fst u then snd u else replacement) (code_points s) = map snd (code_points s)"
    by (simp add: well_formed_utf8_def list_all_iff)
  then show ?thesis
    unfolding decode_replace_def by (simp only: concat_code_points)
qed

lemma code_points_ascii: "ascii s \<Longrightarrow> code_points s = map (\<lambda>c. (True, [c])) s"
  by (induction s) (simp_all add: ascii_def sequence_length_def followers_def)

lemma well_formed_ascii: "ascii s \<Longrightarrow> well_formed_utf8 s"
  by (simp add: well_formed_utf8_def code_points_ascii list_all_iff)

lemma decode_ascii: "ascii s \<Longrightarrow> decode s = Inr s"
  by (simp add: decode_def well_formed_ascii)

lemma decode_replace_ascii: "ascii s \<Longrightarrow> decode_replace s = s"
  by (simp add: decode_replace_well_formed well_formed_ascii)

lemma dropWhile_units:
  "dropWhile is_space (map (\<lambda>c. (True, [c])) s) = map (\<lambda>c. (True, [c])) (dropWhile is_space_char s)"
  by (induction s) (simp_all add: is_space_def is_space_char_def)

lemma concat_units: "concat (map snd (map (\<lambda>c. (True, [c])) s)) = s"
  by (induction s) simp_all

lemma strip_ascii:
  assumes "ascii s"
  shows "strip s = rev (dropWhile is_space_char (rev (dropWhile is_space_char s)))"
proof -
  let ?u = "map (\<lambda>c. (True, [c]))"
  have "rev (dropWhile is_space (rev (dropWhile is_space (code_points s))))
          = rev (dropWhile is_space (rev (?u (dropWhile is_space_char s))))"
    by (simp only: code_points_ascii [OF assms] dropWhile_units)
  also have "\<dots> = rev (dropWhile is_space (?u (rev (dropWhile is_space_char s))))"
    by (simp only: rev_map)
  also have "\<dots> = ?u (rev (dropWhile is_space_char (rev (dropWhile is_space_char s))))"
    by (simp only: dropWhile_units rev_map)
  finally show ?thesis
    unfolding strip_def by (simp only: concat_units)
qed

lemma strip_sample: "strip (''  {x}'' @ [CHR 0x0A]) = ''{x}''"
  by (simp add: strip_ascii ascii_def byte_def is_space_char_def white_space_def)

lemma decode_bad: "decode [CHR 0xFF, CHR 0xFE] = Inl UnicodeDecodeError"
  by (simp add: decode_def well_formed_utf8_def sequence_length_def followers_def byte_def)

lemma decode_replace_bad: "decode_replace [CHR 0xFF] = replacement"
  by (simp add: decode_replace_def sequence_length_def followers_def byte_def)

lemma decode_good: "decode [CHR 0xC3, CHR 0xA0] = Inr [CHR 0xC3, CHR 0xA0]"
  by (simp add: decode_def well_formed_utf8_def sequence_length_def followers_def byte_def
      second_ok_def continuation_def)

lemma strip_nbsp: "strip [CHR 0xC2, CHR 0xA0, CHR ''a'', CHR 0xC3, CHR 0xA0, CHR 0xE2, CHR 0x80, CHR 0xA8]
   = [CHR ''a'', CHR 0xC3, CHR 0xA0]"
  by (simp add: strip_def is_space_def white_space_def sequence_length_def followers_def byte_def
      second_ok_def continuation_def)

section \<open>The code generator bridge\<close>

lemma getitem_Inr_iff:
  "getitem r k = Inr v \<longleftrightarrow> (\<exists>kvs. r = JObj kvs \<and> map_of kvs k = Some v)"
  by (cases r) (auto split: option.splits)

lemma getitem_not_object: "\<not> is_object r \<Longrightarrow> getitem r k = Inl TypeError"
  by (cases r) simp_all

lemma ascii_samples [simp]:
  "ascii example_output" "ascii untyped_output" "ascii extra_output" "ascii list_output"
  "ascii no_code_output" "ascii code_only_output" "ascii traceback_output"
  "ascii (example_output @ [CHR 0x0A])" "ascii (untyped_output @ [CHR 0x0A])"
  "ascii (extra_output @ [CHR 0x0A])" "ascii (list_output @ [CHR 0x0A])"
  "ascii (no_code_output @ [CHR 0x0A])" "ascii (code_only_output @ [CHR 0x0A])"
  "ascii (traceback_output @ [CHR 0x0A])"
  by (simp_all add: ascii_def byte_def example_output_def untyped_output_def extra_output_def
      list_output_def no_code_output_def code_only_output_def traceback_output_def)

lemma strip_printed_line [simp]:
  "strip (example_output @ [CHR 0x0A]) = example_output"
  "strip (untyped_output @ [CHR 0x0A]) = untyped_output"
  "strip (extra_output @ [CHR 0x0A]) = extra_output"
  "strip (list_output @ [CHR 0x0A]) = list_output"
  "strip (no_code_output @ [CHR 0x0A]) = no_code_output"
  "strip (code_only_output @ [CHR 0x0A]) = code_only_output"
  "strip (traceback_output @ [CHR 0x0A]) = traceback_output"
  "strip example_output = example_output"
  by (simp_all add: strip_ascii)
    (simp_all add: is_space_char_def white_space_def example_output_def untyped_output_def
      extra_output_def list_output_def no_code_output_def code_only_output_def
      traceback_output_def)

lemma sample_loads_simps [simp]:
  "sample_loads example_output = Inr example_record"
  "sample_loads untyped_output = Inr untyped_record"
  "sample_loads extra_output = Inr extra_record"
  "sample_loads list_output = Inr list_record"
  "sample_loads no_code_output = Inr no_code_record"
  "sample_loads code_only_output = Inr code_only_record"
  "sample_loads traceback_output = Inl ()"
  by (simp_all add: sample_loads_def example_output_def untyped_output_def
      extra_output_def list_output_def no_code_output_def code_only_output_def
      traceback_output_def)

lemma binary_output_ill_formed: "\<not> well_formed_utf8 binary_output"
  by (simp add: binary_output_def well_formed_utf8_def sequence_length_def followers_def byte_def)





text \<open>
  C4: the generator child, for a valid view, prints a record whose module list holds the
  view's own module. The bridge returns the two fields of this record as they are, so a
  success of the bridge gives a code blob and a list of module identifiers that is not
  empty and includes the view's module; for a view that is not valid the bridge fails.
  The parser reads back what the serialiser wrote.
\<close>

theorem generate_includes_view_module:
  assumes "well_formed_utf8 (dumps (generator_record code_of touched view))"
    and "loads (strip (dumps (generator_record code_of touched view)))
           = Inr (generator_record code_of touched view)"
  shows "(valid view \<longrightarrow>
           generate_diagram_code_in_child_process loads
               (generator_dump dumps valid code_of touched) view
             = Inr (JStr (code_of view), JArr (map JStr (List.insert view (touched view))))
           \<and> view \<in> set (List.insert view (touched view)))
     \<and> (\<not> valid view \<longrightarrow>
           generate_diagram_code_in_child_process loads
               (generator_dump dumps valid code_of touched) view
             = Inl (CalledProcessError 1))
     \<and> (\<forall>c m. generate_diagram_code_in_child_process loads
                  (generator_dump dumps valid code_of touched) view = Inr (c, m) \<longrightarrow>
            is_code_blob c \<and> is_module_list m \<and> includes_module m view \<and> m \<noteq> JArr [])"
proof -
  let ?g = "generate_diagram_code_in_child_process loads
               (generator_dump dumps valid code_of touched) view"
  have ok: "valid view \<Longrightarrow>
      ?g = Inr (JStr (code_of view), JArr (map JStr (List.insert view (touched view))))"
    using assms
    by (simp add: generate_diagram_code_in_child_process_def run_child_process_def
        generator_dump_def decode_def generator_record_def)
  have bad: "\<not> valid view \<Longrightarrow> ?g = Inl (CalledProcessError 1)"
    by (simp add: generate_diagram_code_in_child_process_def run_child_process_def
        generator_dump_def)
  have "is_code_blob c \<and> is_module_list m \<and> includes_module m view \<and> m \<noteq> JArr []"
    if "?g = Inr (c, m)" for c m
  proof (cases "valid view")
    case True
    from ok [OF True] that
    have "c = JStr (code_of view)" "m = JArr (map JStr (List.insert view (touched view)))"
      by simp_all
    then show ?thesis by (auto simp: list_all_iff List.insert_def)
  next
    case False
    from bad [OF False] that show ?thesis by simp
  qed
  with ok bad show ?thesis by auto
qed

theorem generate_includes_view_module_witness:
  "generate_diagram_code_in_child_process sample_loads
       (generator_dump sample_dumps (\<lambda>v. v = example_view) (\<lambda>v. ''workspace {}'') (\<lambda>v. [])) example_view
     = Inr (JStr ''workspace {}'', JArr [JStr ''examples.single_file_example''])
   \<and> includes_module (JArr [JStr ''examples.single_file_example'']) example_view"
proof -
  have r: "generator_record (\<lambda>v. ''workspace {}'') (\<lambda>v. []) example_view = example_record"
    by (simp add: generator_record_def example_record_def example_view_def)
  have a: "well_formed_utf8 (sample_dumps (generator_record (\<lambda>v. ''workspace {}'') (\<lambda>v. []) example_view))"
    by (simp add: r sample_dumps_def well_formed_ascii)
  have b: "sample_loads (strip (sample_dumps (generator_record (\<lambda>v. ''workspace {}'') (\<lambda>v. []) example_view)))
        = Inr (generator_record (\<lambda>v. ''workspace {}'') (\<lambda>v. []) example_view)"
    by (simp add: r sample_dumps_def)
  note T = generate_includes_view_module [where dumps = sample_dumps and loads = sample_loads
      and code_of = "\<lambda>v. ''workspace {}''" and touched = "\<lambda>v. []" and view = example_view
      and valid = "\<lambda>v. v = example_view", OF a b]
  from T [THEN conjunct1]
  have 1: "generate_diagram_code_in_child_process sample_loads
       (generator_dump sample_dumps (\<lambda>v. v = example_view) (\<lambda>v. ''workspace {}'') (\<lambda>v. [])) example_view
     = Inr (JStr ''workspace {}'', JArr [JStr ''examples.single_file_example''])"
    by (simp add: example_view_def)
  from T [THEN conjunct2, THEN conjunct2] 1
  have 2: "includes_module (JArr [JStr ''examples.single_file_example'']) example_view"
    by blast
  from 1 2 show ?thesis by blast
qed

text \<open>
  C10: the bridge checks the presence of the two keys and nothing else. Whatever the
  two values are, they are returned unchanged, and other fields of the record (here
  \<open>extra\<close>, in front of the rest) are ignored.
\<close>

theorem generate_checks_key_presence_only:
  assumes "fst (child view) = 0"
    and "well_formed_utf8 (snd (child view))"
    and "loads (strip (snd (child view))) = Inr (JObj (extra @ kvs))"
    and "''code'' \<notin> fst ` set extra"
    and "''imported_modules'' \<notin> fst ` set extra"
    and "map_of kvs ''code'' = Some c"
    and "map_of kvs ''imported_modules'' = Some m"
  shows "generate_diagram_code_in_child_process loads child view = Inr (c, m)"
  using assms
  by (simp add: generate_diagram_code_in_child_process_def run_child_process_def map_add_def
      map_of_eq_None_iff[THEN iffD2] decode_def)

theorem generate_checks_key_presence_only_witness:
  "generate_diagram_code_in_child_process sample_loads (child_printing extra_output) example_view
     = Inr (JObj [], JStr ''x'')"
  using generate_checks_key_presence_only [of "child_printing extra_output" example_view sample_loads
      "[(''extra'', JNull)]" "[(''code'', JObj []), (''imported_modules'', JStr ''x'')]"
      "JObj []" "JStr ''x''"]
  by (simp add: child_printing_def extra_record_def well_formed_ascii)

section \<open>Paths\<close>

lemma split_sep_nonempty [simp]: "split_sep s \<noteq> []"
  by (induction s) (auto split: list.splits)

lemma split_sep_append: "split_sep (a @ CHR ''/'' # b) = split_sep a @ split_sep b"
  by (induction a) (auto split: list.splits)

lemma split_sep_no_sep: "CHR ''/'' \<notin> set s \<Longrightarrow> split_sep s = [s]"
  by (induction s) auto

lemma parse_root_empty_iff: "parse_root s = [] \<longleftrightarrow> (s = [] \<or> hd s \<noteq> CHR ''/'')"
  by (cases s) (auto simp: parse_root_def Let_def)

lemma parts_Path_diagram:
  "parts (Path (t @ ''/diagram.svg'')) = parts (Path t) @ [''diagram.svg'']"
  using split_sep_append [of t "''diagram.svg''"]
  by (simp add: Path_def)

lemma root_Path_append:
  "t \<noteq> [] \<Longrightarrow> (root (Path (t @ x)) = []) = (root (Path t) = [])"
  by (cases t) (simp_all add: Path_def parse_root_empty_iff)

lemma resolve_diagram:
  "t \<noteq> [] \<Longrightarrow> resolve w (Path (t @ ''/diagram.svg'')) = resolve w (Path t) @ [''diagram.svg'']"
  using root_Path_append [of t "''/diagram.svg''"]
  by (simp add: resolve_def parts_Path_diagram)

lemma replace_dots_no_sep: "CHR ''/'' \<notin> set view \<Longrightarrow> CHR ''/'' \<notin> set (replace_dots view @ ''.svg'')"
  by (auto simp: replace_dots_def)

lemma Path_single:
  "CHR ''/'' \<notin> set n \<Longrightarrow> n \<noteq> [] \<Longrightarrow> n \<noteq> ''.'' \<Longrightarrow> Path n = \<lparr>root = [], parts = [n]\<rparr>"
  by (cases n) (auto simp: Path_def split_sep_no_sep parse_root_empty_iff)

lemma truediv_single:
  "CHR ''/'' \<notin> set n \<Longrightarrow> n \<noteq> [] \<Longrightarrow> n \<noteq> ''.'' \<Longrightarrow>
     truediv p n = \<lparr>root = root p, parts = parts p @ [n]\<rparr>"
  by (simp add: truediv_def Path_single)

lemma truediv_view:
  "CHR ''/'' \<notin> set view \<Longrightarrow>
     truediv p (replace_dots view @ ''.svg'') =
       \<lparr>root = root p, parts = parts p @ [replace_dots view @ ''.svg'']\<rparr>"
  by (rule truediv_single) (auto simp: replace_dots_def)

lemma basename_diagram: "basename (t @ ''/diagram.svg'') = ''diagram.svg''"
  using split_sep_append [of t "''diagram.svg''"]
  by (simp add: basename_def)

lemma resolve_truediv_single:
  "CHR ''/'' \<notin> set n \<Longrightarrow> n \<noteq> [] \<Longrightarrow> n \<noteq> ''.'' \<Longrightarrow>
     resolve w (truediv p n) = resolve w p @ [n]"
  by (simp add: truediv_single resolve_def)

section \<open>Frames\<close>

lemma os_mkdir_frame: "os_mkdir w p = Inr w' \<Longrightarrow> w' = w\<lparr>fs := fs w'\<rparr>"
  by (auto simp: os_mkdir_def Let_def split: if_splits option.splits node.splits)

lemma mkdir_exist_ok_frame: "mkdir_exist_ok w p = Inr w' \<Longrightarrow> w' = w\<lparr>fs := fs w'\<rparr>"
  by (auto simp: mkdir_exist_ok_def dest: os_mkdir_frame split: sum.splits if_splits)

lemma frame_trans: "w1 = w\<lparr>fs := f1\<rparr> \<Longrightarrow> w2 = w1\<lparr>fs := f2\<rparr> \<Longrightarrow> w2 = w\<lparr>fs := fs w2\<rparr>"
  by simp

lemma mkdir_parents_frame: "mkdir_parents w p = Inr w' \<Longrightarrow> w' = w\<lparr>fs := fs w'\<rparr>"
proof (induction w p arbitrary: w' rule: mkdir_parents.induct)
  case (1 w p)
  show ?case
  proof (cases "os_mkdir w p")
    case (Inr w1)
    with "1.prems" show ?thesis
      by (simp add: mkdir_parents.simps [of w p] os_mkdir_frame)
  next
    case (Inl e)
    show ?thesis
    proof (cases "e = FileNotFoundError")
      case False
      with Inl "1.prems" show ?thesis
        by (simp add: mkdir_parents.simps [of w p] split: if_splits)
    next
      case True
      with Inl "1.prems" obtain w1 where ne: "parts p \<noteq> []"
        and par: "mkdir_parents w (parent p) = Inr w1" and last: "mkdir_exist_ok w1 p = Inr w'"
        by (auto simp: mkdir_parents.simps [of w p] split: if_splits sum.splits)
      from "1.IH" [OF Inl True ne par] have "w1 = w\<lparr>fs := fs w1\<rparr>" .
      moreover from mkdir_exist_ok_frame [OF last] have "w' = w1\<lparr>fs := fs w'\<rparr>" .
      ultimately show ?thesis by (rule frame_trans)
    qed
  qed
qed

lemma write_file_frame: "write_file w p t = Inr w' \<Longrightarrow> w' = w\<lparr>fs := fs w'\<rparr>"
  by (auto simp: write_file_def Let_def split: if_splits option.splits node.splits)

section \<open>Effects of the file-system operations\<close>

lemma resolve_fs_update [simp]: "resolve (w\<lparr>fs := f\<rparr>) p = resolve w p"
  by (simp add: resolve_def)

lemma os_mkdir_Inr:
  "os_mkdir w p = Inr w' \<Longrightarrow>
     fs w (resolve w p) = None \<and> w' = w\<lparr>fs := (fs w)(resolve w p \<mapsto> Dir)\<rparr>"
  by (auto simp: os_mkdir_def Let_def split: if_splits option.splits node.splits)

lemma mkdir_exist_ok_Inr:
  "mkdir_exist_ok w p = Inr w' \<Longrightarrow>
     (fs w (resolve w p) = None \<and> w' = w\<lparr>fs := (fs w)(resolve w p \<mapsto> Dir)\<rparr>)
     \<or> (is_dir w p \<and> w' = w)"
  by (auto simp: mkdir_exist_ok_def dest: os_mkdir_Inr split: sum.splits if_splits)

lemma adds_dirs_refl [simp]: "adds_dirs w w"
  by (simp add: adds_dirs_def)

lemma adds_dirs_trans: "adds_dirs w w1 \<Longrightarrow> adds_dirs w1 w2 \<Longrightarrow> adds_dirs w w2"
  unfolding adds_dirs_def
  apply (rule conjI)
   apply (metis frame_trans)
  apply (metis)
  done

lemma os_mkdir_adds: "os_mkdir w p = Inr w' \<Longrightarrow> adds_dirs w w'"
  by (auto simp: adds_dirs_def dest!: os_mkdir_Inr split: if_splits)

lemma mkdir_exist_ok_adds: "mkdir_exist_ok w p = Inr w' \<Longrightarrow> adds_dirs w w'"
  by (auto simp: adds_dirs_def dest!: mkdir_exist_ok_Inr split: if_splits)

lemma adds_dirs_resolve: "adds_dirs w w' \<Longrightarrow> resolve w' p = resolve w p"
  by (auto simp: adds_dirs_def resolve_def) (metis world.select_convs(2) world.surjective world.update_convs(1))

lemma mkdir_exist_ok_is_dir: "mkdir_exist_ok w p = Inr w' \<Longrightarrow> is_dir w' p"
  by (auto simp: is_dir_def dest!: mkdir_exist_ok_Inr)

lemma mkdir_parents_adds_is_dir:
  "mkdir_parents w p = Inr w' \<Longrightarrow> adds_dirs w w' \<and> is_dir w' p"
proof (induction w p arbitrary: w' rule: mkdir_parents.induct)
  case (1 w p)
  show ?case
  proof (cases "os_mkdir w p")
    case (Inr w1)
    with "1.prems" have "w' = w1" by (simp add: mkdir_parents.simps [of w p])
    with Inr show ?thesis
      by (auto simp: os_mkdir_adds is_dir_def dest!: os_mkdir_Inr)
  next
    case (Inl e)
    show ?thesis
    proof (cases "e = FileNotFoundError")
      case False
      with Inl "1.prems" show ?thesis
        by (simp add: mkdir_parents.simps [of w p] split: if_splits)
    next
      case True
      with Inl "1.prems" obtain w1 where ne: "parts p \<noteq> []"
        and par: "mkdir_parents w (parent p) = Inr w1" and last: "mkdir_exist_ok w1 p = Inr w'"
        by (auto simp: mkdir_parents.simps [of w p] split: if_splits sum.splits)
      from "1.IH" [OF Inl True ne par] have "adds_dirs w w1" by simp
      with mkdir_exist_ok_adds [OF last] have "adds_dirs w w'" by (blast intro: adds_dirs_trans)
      with mkdir_exist_ok_is_dir [OF last] show ?thesis by simp
    qed
  qed
qed

lemma resolve_ancestor: "resolve w (ancestor p j) = (if root p = [] then cwd w else []) @ take j (parts p)"
  by (simp add: resolve_def ancestor_def)

lemma resolve_parent: "resolve w (parent p) = (if root p = [] then cwd w else []) @ butlast (parts p)"
  by (simp add: resolve_def parent_def)

lemma butlast_resolve: "parts p \<noteq> [] \<Longrightarrow> butlast (resolve w p) = resolve w (parent p)"
  by (simp add: resolve_def parent_def butlast_append)

lemma ancestor_parent:
  "j \<le> length (parts p) - 1 \<Longrightarrow> ancestor (parent p) j = ancestor p j"
proof (cases "parts p = []")
  case True
  then show ?thesis by (simp add: ancestor_def parent_def)
next
  case False
  assume "j \<le> length (parts p) - 1"
  with False have "j < length (parts p)" by (cases "parts p") auto
  then show ?thesis by (simp add: ancestor_def parent_def take_butlast)
qed

lemma ancestor_full: "ancestor p (length (parts p)) = p"
  by (simp add: ancestor_def)

lemma parent_is_ancestor: "parent p = ancestor p (length (parts p) - 1)"
  by (simp add: ancestor_def parent_def butlast_conv_take)

lemma resolve_ancestor_inj:
  "i \<le> length (parts p) \<Longrightarrow> j \<le> length (parts p) \<Longrightarrow>
     resolve w (ancestor p i) = resolve w (ancestor p j) \<longleftrightarrow> i = j"
  by (auto simp: resolve_ancestor dest: arg_cong [where f = length])

lemma chain_created_parent:
  assumes "m < length (parts p)"
  shows "(chain_created w (parent p) m)\<lparr>fs := (fs (chain_created w (parent p) m))(resolve w p \<mapsto> Dir)\<rparr>
           = chain_created w p m"
proof -
  let ?n = "length (parts p)"
  have len: "length (parts (parent p)) = ?n - 1" by (simp add: parent_def)
  have "(\<exists>j. m < j \<and> j \<le> ?n \<and> k = resolve w (ancestor p j)) \<longleftrightarrow>
        (k = resolve w p \<or> (\<exists>j. m < j \<and> j \<le> ?n - 1 \<and> k = resolve w (ancestor (parent p) j)))" for k
  proof
    assume "\<exists>j. m < j \<and> j \<le> ?n \<and> k = resolve w (ancestor p j)"
    then obtain j where j: "m < j" "j \<le> ?n" "k = resolve w (ancestor p j)" by blast
    show "k = resolve w p \<or> (\<exists>j. m < j \<and> j \<le> ?n - 1 \<and> k = resolve w (ancestor (parent p) j))"
    proof (cases "j = ?n")
      case True
      with j show ?thesis by (simp add: ancestor_full)
    next
      case False
      with j have "j \<le> ?n - 1" by simp
      with j show ?thesis using ancestor_parent [of j p] by metis
    qed
  next
    assume "k = resolve w p \<or> (\<exists>j. m < j \<and> j \<le> ?n - 1 \<and> k = resolve w (ancestor (parent p) j))"
    then show "\<exists>j. m < j \<and> j \<le> ?n \<and> k = resolve w (ancestor p j)"
    proof
      assume "k = resolve w p"
      with assms show ?thesis using ancestor_full [of p] by (metis order_refl)
    next
      assume "\<exists>j. m < j \<and> j \<le> ?n - 1 \<and> k = resolve w (ancestor (parent p) j)"
      then obtain j where "m < j" "j \<le> ?n - 1" "k = resolve w (ancestor (parent p) j)" by blast
      then show ?thesis using ancestor_parent [of j p] by (metis diff_le_self order_trans)
    qed
  qed
  then have "(fs (chain_created w (parent p) m))(resolve w p \<mapsto> Dir) = fs (chain_created w p m)"
    by (auto simp: chain_created_def len fun_eq_iff)
  then show ?thesis
    by (simp add: chain_created_def)
qed

lemma chain_created_same: "chain_created w p (length (parts p)) = w"
proof -
  have "(\<lambda>k. if \<exists>j. length (parts p) < j \<and> j \<le> length (parts p) \<and> k = resolve w (ancestor p j)
             then Some Dir else fs w k) = fs w"
    by (auto simp: fun_eq_iff)
  then show ?thesis by (simp add: chain_created_def)
qed

lemma mkdir_parents_total:
  assumes "m \<le> length (parts p)"
    and "\<forall>j \<le> m. is_dir w (ancestor p j)"
    and "\<forall>j. m < j \<and> j \<le> length (parts p) \<longrightarrow> \<not> exists_path w (ancestor p j)"
  shows "mkdir_parents w p = Inr (chain_created w p m)"
  using assms
proof (induction w p rule: mkdir_parents.induct)
  case (1 w p)
  let ?n = "length (parts p)"
  show ?case
  proof (cases "m = ?n")
    case True
    with "1.prems" have all: "\<forall>j \<le> ?n. is_dir w (ancestor p j)" by simp
    then have d: "is_dir w p" using ancestor_full [of p] by (metis order_refl)
    have par: "parts p \<noteq> [] \<Longrightarrow> fs w (butlast (resolve w p)) = Some Dir"
    proof -
      assume ne: "parts p \<noteq> []"
      then have "?n - 1 \<le> ?n" by simp
      with all have "is_dir w (ancestor p (?n - 1))" by blast
      then show ?thesis
        using ne by (simp add: butlast_resolve parent_is_ancestor is_dir_def)
    qed
    have "mkdir_parents w p = Inr w"
      using d par
      by (auto simp: mkdir_parents.simps [of w p] os_mkdir_def is_dir_def Let_def
          split: sum.splits)
    with True show ?thesis by (simp add: chain_created_same)
  next
    case False
    with "1.prems" have lt: "m < ?n" by simp
    then have ne: "parts p \<noteq> []" by auto
    from "1.prems" lt have absent: "fs w (resolve w p) = None"
      using ancestor_full [of p] by (metis exists_path_def order_refl)
    have len: "length (parts (parent p)) = ?n - 1"
      by (simp add: parent_def)
    have here: "\<not> (\<exists>j. m < j \<and> j \<le> ?n - 1 \<and> resolve w p = resolve w (ancestor (parent p) j))"
    proof
      assume "\<exists>j. m < j \<and> j \<le> ?n - 1 \<and> resolve w p = resolve w (ancestor (parent p) j)"
      then obtain j where j: "j \<le> ?n - 1" "resolve w p = resolve w (ancestor (parent p) j)" by blast
      then have "resolve w (ancestor p ?n) = resolve w (ancestor p j)"
        by (simp add: ancestor_full ancestor_parent)
      moreover have "j \<le> ?n" using j by simp
      ultimately have "?n = j" using resolve_ancestor_inj [of ?n p j w] by simp
      with j ne show False by (cases "parts p") auto
    qed
    show ?thesis
    proof (cases "m = ?n - 1")
      case True
      with "1.prems" have "is_dir w (ancestor p (?n - 1))" by blast
      then have pd: "fs w (butlast (resolve w p)) = Some Dir"
        using ne by (simp add: butlast_resolve parent_is_ancestor is_dir_def)
      have r: "mkdir_parents w p = Inr (w\<lparr>fs := (fs w)(resolve w p \<mapsto> Dir)\<rparr>)"
        using pd absent ne
        by (simp add: mkdir_parents.simps [of w p] os_mkdir_def Let_def)
      have "chain_created w (parent p) m = w"
        using True chain_created_same [of w "parent p"] by (simp add: len)
      with chain_created_parent [OF lt, of w] r show ?thesis by simp
    next
      case False
      with lt have lt': "m < ?n - 1" by simp
      then have "\<not> exists_path w (ancestor p (?n - 1))"
        using "1.prems" by (metis diff_le_self)
      then have pn: "fs w (butlast (resolve w p)) = None"
        using ne by (simp add: butlast_resolve parent_is_ancestor exists_path_def)
      then have mk: "os_mkdir w p = Inl FileNotFoundError"
        using ne by (simp add: os_mkdir_def Let_def)
      have w1: "mkdir_parents w (parent p) = Inr (chain_created w (parent p) m)"
      proof (rule "1.IH" [OF mk refl ne])
        show "m \<le> length (parts (parent p))" using lt' len by simp
        show "\<forall>j\<le>m. is_dir w (ancestor (parent p) j)"
          using "1.prems" lt' by (simp add: ancestor_parent)
        show "\<forall>j. m < j \<and> j \<le> length (parts (parent p)) \<longrightarrow> \<not> exists_path w (ancestor (parent p) j)"
        proof (intro allI impI)
          fix j assume j: "m < j \<and> j \<le> length (parts (parent p))"
          then have "j \<le> ?n - 1" by (simp add: len)
          moreover from this have "j \<le> ?n" by simp
          ultimately show "\<not> exists_path w (ancestor (parent p) j)"
            using "1.prems" j by (simp add: ancestor_parent)
        qed
      qed
      let ?w1 = "chain_created w (parent p) m"
      have res: "resolve ?w1 p = resolve w p"
        by (simp add: chain_created_def)
      have still: "fs ?w1 (resolve w p) = None"
        using here absent by (simp add: chain_created_def len)
      have "\<exists>j. m < j \<and> j \<le> ?n - 1 \<and> butlast (resolve w p) = resolve w (ancestor (parent p) j)"
        using lt' ne ancestor_full [of "parent p"]
        by (intro exI [of _ "?n - 1"]) (simp add: butlast_resolve len)
      then have pd: "fs ?w1 (butlast (resolve w p)) = Some Dir"
        by (simp add: chain_created_def len)
      have "mkdir_exist_ok ?w1 p = Inr (?w1\<lparr>fs := (fs ?w1)(resolve w p \<mapsto> Dir)\<rparr>)"
        using res still pd ne
        by (simp add: mkdir_exist_ok_def os_mkdir_def Let_def)
      with w1 mk ne chain_created_parent [OF lt, of w] show ?thesis
        by (simp add: mkdir_parents.simps [of w p])
    qed
  qed
qed

lemma chain_created_is_dir:
  assumes "\<forall>j \<le> m. is_dir w (ancestor p j)" and "j \<le> length (parts p)"
  shows "is_dir (chain_created w p m) (ancestor p j)"
  using assms by (cases "j \<le> m") (auto simp: is_dir_def chain_created_def)

section \<open>Moving the rendered file\<close>

lemma os_rename_Inr:
  "os_rename w src dst = Inr w' \<Longrightarrow>
     \<exists>c. fs w (resolve w src) = Some (File c) \<and> fs w (resolve w dst) \<noteq> Some Dir
        \<and> w' = w\<lparr>fs := ((fs w)(resolve w src := None))(resolve w dst \<mapsto> File c)\<rparr>"
  by (auto simp: os_rename_def Let_def split: if_splits option.splits node.splits)

lemma write_file_Inr:
  "write_file w p t = Inr w' \<Longrightarrow>
     fs w (resolve w p) \<noteq> Some Dir \<and> w' = w\<lparr>fs := (fs w)(resolve w p \<mapsto> File t)\<rparr>"
  by (auto simp: write_file_def Let_def split: if_splits option.splits node.splits)

lemma os_unlink_Inr:
  "os_unlink w p = Inr w' \<Longrightarrow> w' = w\<lparr>fs := (fs w)(resolve w p := None)\<rparr>"
  by (auto simp: os_unlink_def Let_def split: option.splits node.splits)

lemma shutil_copy_Inr:
  "shutil_copy w src dst = Inr w' \<Longrightarrow> \<not> is_dir w dst \<Longrightarrow>
     \<exists>c. fs w (resolve w (Path src)) = Some (File c) \<and> resolve w (Path src) \<noteq> resolve w dst
        \<and> w' = w\<lparr>fs := (fs w)(resolve w dst \<mapsto> File c)\<rparr>"
  by (auto simp: shutil_copy_def Let_def dest!: write_file_Inr split: if_splits option.splits node.splits)

text \<open>
  A move that succeeds has taken a regular file away from the source and has put its
  text at the destination, by a rename or by copy and removal alike.
\<close>

lemma move_to_Inr:
  assumes "move_to w src dst = Inr w'" and "\<not> is_dir w dst"
  shows "\<exists>c. fs w (resolve w (Path src)) = Some (File c)
           \<and> w' = w\<lparr>fs := ((fs w)(resolve w (Path src) := None))(resolve w dst \<mapsto> File c)\<rparr>"
proof (cases "os_rename w (Path src) dst")
  case (Inr w1)
  with assms show ?thesis
    by (auto simp: move_to_def dest!: os_rename_Inr)
next
  case (Inl e)
  with assms obtain w1 where cp: "shutil_copy w src dst = Inr w1"
    and ul: "os_unlink w1 (Path src) = Inr w'"
    by (auto simp: move_to_def split: sum.splits)
  from shutil_copy_Inr [OF cp assms(2)] obtain c where
    c: "fs w (resolve w (Path src)) = Some (File c)"
    and ne: "resolve w (Path src) \<noteq> resolve w dst"
    and w1: "w1 = w\<lparr>fs := (fs w)(resolve w dst \<mapsto> File c)\<rparr>"
    by blast
  from os_unlink_Inr [OF ul] w1 ne
  have "w' = w\<lparr>fs := ((fs w)(resolve w (Path src) := None))(resolve w dst \<mapsto> File c)\<rparr>"
    by (simp add: fun_upd_twist)
  with c show ?thesis by blast
qed

lemma shutil_move_Inr:
  assumes "shutil_move w src dst = Inr w'"
  shows "\<exists>c. fs w (resolve w (Path src)) = Some (File c)
           \<and> w' = w\<lparr>fs := ((fs w)(resolve w (Path src) := None))
                             (resolve w (move_target w src dst) \<mapsto> File c)\<rparr>"
proof (cases "is_dir w dst")
  case False
  with assms move_to_Inr [of w src dst w'] show ?thesis
    by (simp add: shutil_move_def move_target_def)
next
  case True
  let ?t = "truediv dst (basename src)"
  from True assms have ne: "\<not> exists_path w ?t" and mv: "move_to w src ?t = Inr w'"
    by (auto simp: shutil_move_def Let_def split: if_splits)
  from ne have "\<not> is_dir w ?t" by (simp add: is_dir_def exists_path_def)
  from move_to_Inr [OF mv this] True show ?thesis
    by (simp add: move_target_def)
qed

text \<open>When the move succeeds.\<close>

lemma move_to_total:
  assumes "fs w (resolve w (Path src)) = Some (File c)"
    and "parts dst \<noteq> []"
    and "fs w (butlast (resolve w dst)) = Some Dir"
    and "fs w (resolve w dst) \<noteq> Some Dir"
    and "resolve w (Path src) \<noteq> resolve w dst"
  shows "move_to w src dst =
           Inr (w\<lparr>fs := ((fs w)(resolve w (Path src) := None))(resolve w dst \<mapsto> File c)\<rparr>)"
proof (cases "exdev w")
  case False
  with assms show ?thesis
    by (auto simp: move_to_def os_rename_def Let_def split: option.splits node.splits)
next
  case True
  have nd: "\<not> is_dir w dst" using assms(4) by (simp add: is_dir_def)
  have cp: "shutil_copy w src dst = Inr (w\<lparr>fs := (fs w)(resolve w dst \<mapsto> File c)\<rparr>)"
    using assms nd
    by (auto simp: shutil_copy_def write_file_def Let_def split: option.splits node.splits)
  have ul: "os_unlink (w\<lparr>fs := (fs w)(resolve w dst \<mapsto> File c)\<rparr>) (Path src)
              = Inr (w\<lparr>fs := ((fs w)(resolve w (Path src) := None))(resolve w dst \<mapsto> File c)\<rparr>)"
    using assms(1,5) by (simp add: os_unlink_def Let_def fun_upd_twist)
  from True cp ul show ?thesis
    by (simp add: move_to_def os_rename_def)
qed

section \<open>The temporary directory\<close>

lemma mkdtemp_loop_Inr:
  "mkdtemp_loop w names = Inr (t, w') \<Longrightarrow>
     t \<in> set names \<and> fs w (resolve w (Path t)) = None
     \<and> (\<exists>rest. w' = w\<lparr>fs := (fs w)(resolve w (Path t) \<mapsto> Dir), tmp_names := rest\<rparr>)"
proof (induction names)
  case Nil
  then show ?case by simp
next
  case (Cons n names)
  show ?case
  proof (cases "os_mkdir w (Path n)")
    case (Inr w1)
    with Cons.prems have eq: "t = n" "w' = w1\<lparr>tmp_names := names\<rparr>" by auto
    from os_mkdir_Inr [OF Inr] have none: "fs w (resolve w (Path n)) = None"
      and w1: "w1 = w\<lparr>fs := (fs w)(resolve w (Path n) \<mapsto> Dir)\<rparr>" by auto
    from eq w1 have "\<exists>rest. w' = w\<lparr>fs := (fs w)(resolve w (Path t) \<mapsto> Dir), tmp_names := rest\<rparr>"
      by blast
    moreover have "t \<in> set (n # names)" using eq by simp
    moreover have "fs w (resolve w (Path t)) = None" using eq none by simp
    ultimately show ?thesis by blast
  next
    case (Inl e)
    with Cons show ?thesis by (auto split: if_splits)
  qed
qed

lemma mkdtemp_Inr:
  "mkdtemp w = Inr (t, w') \<Longrightarrow>
     t \<in> set (tmp_names w) \<and> fs w (resolve w (Path t)) = None
     \<and> (\<exists>rest. w' = w\<lparr>fs := (fs w)(resolve w (Path t) \<mapsto> Dir), tmp_names := rest\<rparr>)"
  unfolding mkdtemp_def by (rule mkdtemp_loop_Inr)

lemma generate_svg_Inr:
  "generate_svg w code tmp = (Inr temp, w') \<Longrightarrow>
     temp = tmp @ ''/diagram.svg''
     \<and> (\<exists>resp. encode_request code = Inr code \<and> http_post w code = Responded resp
           \<and> status_code resp = 200
           \<and> w' = w\<lparr>fs := (fs w)(resolve w (Path temp) \<mapsto> File (decode_replace (content resp)))\<rparr>)"
  by (cases code)
    (auto simp: generate_svg_def Let_def dest!: write_file_Inr
      split: http_outcome.splits if_splits sum.splits)

lemma generate_svg_frame:
  "generate_svg w code tmp = (r, w') \<Longrightarrow> w' = w\<lparr>fs := fs w', stdout := stdout w'\<rparr>"
  by (cases code)
    (auto simp: generate_svg_def Let_def echo_def dest!: write_file_Inr
      split: http_outcome.splits if_splits sum.splits)

lemma shutil_move_frame: "shutil_move w src dst = Inr w' \<Longrightarrow> w' = w\<lparr>fs := fs w'\<rparr>"
  by (auto dest!: shutil_move_Inr)

lemma place_frame: "place w view D temp = (r, w') \<Longrightarrow> w' = w\<lparr>fs := fs w'\<rparr>"
  by (auto simp: place_def dest!: mkdir_parents_frame shutil_move_frame
      split: prod.splits sum.splits) (metis frame_trans)

lemma place_Inr:
  assumes "place w view D temp = (Inr p, w')"
  obtains base_dir w1 c where
    "resolve_destination w view D = (base_dir, p)"
    "mkdir_parents w base_dir = Inr w1"
    "fs w1 (resolve w (Path temp)) = Some (File c)"
    "w' = w1\<lparr>fs := ((fs w1)(resolve w (Path temp) := None))
                       (resolve w (move_target w1 temp p) \<mapsto> File c)\<rparr>"
proof -
  obtain base_dir q where rd: "resolve_destination w view D = (base_dir, q)"
    by (cases "resolve_destination w view D")
  with assms obtain w1 where mk: "mkdir_parents w base_dir = Inr w1"
    and mv: "shutil_move w1 temp q = Inr w'" and pq: "p = q"
    by (auto simp: place_def split: sum.splits)
  from mkdir_parents_adds_is_dir [OF mk] have res: "resolve w1 = resolve w"
    by (auto simp: fun_eq_iff adds_dirs_resolve)
  from shutil_move_Inr [OF mv] res pq rd mk that show ?thesis
    by auto
qed

lemma build_Inr:
  assumes "build loads view D w = (Inr (), w')"
  obtains tmp w1 code mods temp w2 p w3 where
    "mkdtemp w = Inr (tmp, w1)"
    "generate_diagram_code_in_child_process loads (child_process w1) view = Inr (code, mods)"
    "generate_svg w1 code tmp = (Inr temp, w2)"
    "place w2 view D temp = (Inr p, w3)"
    "w' = rmtree (echo (str_path p) (set_svg_file_path p w3)) (Path tmp)"
  using assms
  by (auto simp: build_def build_async_behavior_def split: sum.splits prod.splits)

section \<open>Running the definitions\<close>

lemma ascii_bodies [simp]: "ascii ''<svg></svg>''" "ascii ''bad syntax''" "ascii ''<html></html>''"
  by (simp_all add: ascii_def byte_def)

lemmas eval_defs =
  build_def build_async_behavior_def mkdtemp_def place_def resolve_destination_def
  generate_svg_def generate_diagram_code_in_child_process_def run_child_process_def
  decode_ascii decode_replace_ascii
  shutil_move_def move_to_def os_rename_def os_unlink_def shutil_copy_def write_file_def
  os_mkdir_def mkdir_exist_ok_def mkdir_parents.simps is_dir_def is_file_def exists_path_def
  resolve_def Path_def parse_root_def truediv_def parent_def basename_def replace_dots_def
  str_path_def echo_def set_svg_file_path_def rmtree_def Let_def upload_def
  world0_def world_tmp_def fs0_def render_ok_def render_500_def child_printing_def
  example_view_def example_record_def gcs_def gcs_upload_file_def

section \<open>The renderer client\<close>

lemma decode_binary:
  "decode [CHR 0xFF, CHR 0xFE] = Inl UnicodeDecodeError"
  "decode_replace [CHR 0xFF] = [CHR 0xEF, CHR 0xBF, CHR 0xBD]"
  by (simp_all add: decode_def decode_replace_def replacement_def well_formed_utf8_def
      sequence_length_def followers_def byte_def)

text \<open>
  C2, as stated, has the render error raised whenever the status is not 200, with the
  body surfaced, and has the body written as it is on success. A body that is not
  UTF-8 refutes both: with the status 500 the error raised is
  \<^verbatim>\<open>UnicodeDecodeError\<close>, from printing the body, and only the response has been
  printed; with the status 200 the file receives the text of the response, in which
  the byte FF has become the replacement character.
\<close>

theorem generate_svg_undecodable_body:
  "fst (generate_svg world_500_binary (JStr ''workspace {}'') ''/tmp/tmpa1b2c3d4'')
     = Inl UnicodeDecodeError
   \<and> stdout (snd (generate_svg world_500_binary (JStr ''workspace {}'') ''/tmp/tmpa1b2c3d4''))
       = [''<Response [500 Internal Server Error]>'']
   \<and> http_post world_ok_binary (JStr ''workspace {}'')
       = Responded \<lparr>status_code = 200, content = [CHR 0xFF], repr_text = ''<Response [200 OK]>''\<rparr>
   \<and> generate_svg world_ok_binary (JStr ''workspace {}'') ''/tmp/tmpa1b2c3d4''
       = (Inr ''/tmp/tmpa1b2c3d4/diagram.svg'',
          world_ok_binary\<lparr>fs := (fs world_ok_binary)
             ([''tmp'', ''tmpa1b2c3d4'', ''diagram.svg''] \<mapsto> File [CHR 0xEF, CHR 0xBF, CHR 0xBD])\<rparr>)"
  by (simp add: world_500_binary_def world_ok_binary_def render_500_binary_def
      render_ok_binary_def decode_binary eval_defs)

text \<open>
  C2, amended: let the client accept the diagram code and the service respond. When the
  body is UTF-8 (an empty body is), \<^verbatim>\<open>generate_svg\<close> raises the render error exactly
  when the status is not 200, having printed the response and, when it is not empty,
  the body. With any body, a status other than 200 is a failure that leaves the file
  system unchanged, and the render error is raised for such a status only. A call that
  returns has written the text of the response to \<^verbatim>\<open>diagram.svg\<close> in the work
  directory, replacing what was there, and has changed nothing else; the call does
  return when the status is 200, the work directory exists and \<^verbatim>\<open>diagram.svg\<close> in
  it is not a directory. The text of the response is the body itself when the body is
  UTF-8.
\<close>

theorem generate_svg_render_error:
  assumes "encode_request code = Inr data" and "http_post w data = Responded resp"
  shows "(status_code resp \<noteq> 200 \<and> well_formed_utf8 (content resp) \<longrightarrow>
           generate_svg w code tmp =
             (Inl (ClickException ''Failed to create diagram''),
              w\<lparr>stdout := stdout w @ repr_text resp #
                   (if content resp \<noteq> [] then [content resp] else [])\<rparr>))
     \<and> (status_code resp \<noteq> 200 \<longrightarrow>
           (\<exists>e. fst (generate_svg w code tmp) = Inl e)
         \<and> fs (snd (generate_svg w code tmp)) = fs w)
     \<and> (fst (generate_svg w code tmp) = Inl (ClickException ''Failed to create diagram'')
           \<longrightarrow> status_code resp \<noteq> 200)
     \<and> (\<forall>p w'. generate_svg w code tmp = (Inr p, w') \<longrightarrow>
           status_code resp = 200 \<and> p = tmp @ ''/diagram.svg''
         \<and> w' = w\<lparr>fs := (fs w)(resolve w (Path p) \<mapsto> File (decode_replace (content resp)))\<rparr>)
     \<and> (status_code resp = 200 \<and> tmp \<noteq> [] \<and> is_dir w (Path tmp)
           \<and> \<not> is_dir w (Path (tmp @ ''/diagram.svg'')) \<longrightarrow>
         generate_svg w code tmp =
           (Inr (tmp @ ''/diagram.svg''),
            w\<lparr>fs := (fs w)(resolve w (Path (tmp @ ''/diagram.svg''))
                   \<mapsto> File (decode_replace (content resp)))\<rparr>))
     \<and> (well_formed_utf8 (content resp) \<longrightarrow> decode_replace (content resp) = content resp)"
proof (intro conjI)
  from assms have d: "data = code" by (cases code) auto
  note post = assms(1) [unfolded d] assms(2) [unfolded d]
  show "status_code resp \<noteq> 200 \<and> well_formed_utf8 (content resp) \<longrightarrow>
           generate_svg w code tmp =
             (Inl (ClickException ''Failed to create diagram''),
              w\<lparr>stdout := stdout w @ repr_text resp #
                   (if content resp \<noteq> [] then [content resp] else [])\<rparr>)"
    using post by (simp add: generate_svg_def Let_def echo_def decode_def)
  show "status_code resp \<noteq> 200 \<longrightarrow>
           (\<exists>e. fst (generate_svg w code tmp) = Inl e)
         \<and> fs (snd (generate_svg w code tmp)) = fs w"
    using post by (simp add: generate_svg_def Let_def echo_def decode_def)
  show "fst (generate_svg w code tmp) = Inl (ClickException ''Failed to create diagram'')
           \<longrightarrow> status_code resp \<noteq> 200"
    using post
    by (auto simp: generate_svg_def write_file_def Let_def
        split: sum.splits option.splits node.splits if_splits)
  show "\<forall>p w'. generate_svg w code tmp = (Inr p, w') \<longrightarrow>
           status_code resp = 200 \<and> p = tmp @ ''/diagram.svg''
         \<and> w' = w\<lparr>fs := (fs w)(resolve w (Path p) \<mapsto> File (decode_replace (content resp)))\<rparr>"
    using post by (auto dest!: generate_svg_Inr)
  show "status_code resp = 200 \<and> tmp \<noteq> [] \<and> is_dir w (Path tmp)
           \<and> \<not> is_dir w (Path (tmp @ ''/diagram.svg'')) \<longrightarrow>
         generate_svg w code tmp =
           (Inr (tmp @ ''/diagram.svg''),
            w\<lparr>fs := (fs w)(resolve w (Path (tmp @ ''/diagram.svg''))
                   \<mapsto> File (decode_replace (content resp)))\<rparr>)"
  proof
    assume h: "status_code resp = 200 \<and> tmp \<noteq> [] \<and> is_dir w (Path tmp)
           \<and> \<not> is_dir w (Path (tmp @ ''/diagram.svg''))"
    then have "write_file w (Path (tmp @ ''/diagram.svg'')) (decode_replace (content resp)) =
        Inr (w\<lparr>fs := (fs w)(resolve w (Path (tmp @ ''/diagram.svg''))
               \<mapsto> File (decode_replace (content resp)))\<rparr>)"
      using resolve_diagram [of tmp w]
      by (auto simp: write_file_def Let_def is_dir_def parts_Path_diagram
          split: option.splits node.splits)
    with h post show "generate_svg w code tmp =
           (Inr (tmp @ ''/diagram.svg''),
            w\<lparr>fs := (fs w)(resolve w (Path (tmp @ ''/diagram.svg''))
                   \<mapsto> File (decode_replace (content resp)))\<rparr>)"
      by (simp add: generate_svg_def Let_def)
  qed
  show "well_formed_utf8 (content resp) \<longrightarrow> decode_replace (content resp) = content resp"
    by (simp add: decode_replace_well_formed)
qed

theorem generate_svg_render_error_witness:
  "generate_svg world_500 (JStr ''workspace {}'') ''/tmp/tmpa1b2c3d4''
     = (Inl (ClickException ''Failed to create diagram''),
        world_500\<lparr>stdout := [''<Response [500 Internal Server Error]>'', ''bad syntax'']\<rparr>)
   \<and> fs (snd (generate_svg world_500 (JStr ''workspace {}'') ''/tmp/tmpa1b2c3d4'')) = fs world_500
   \<and> generate_svg world_tmp (JStr ''workspace {}'') ''/tmp/tmpa1b2c3d4''
       = (Inr ''/tmp/tmpa1b2c3d4/diagram.svg'',
          world_tmp\<lparr>fs := (fs world_tmp)([''tmp'', ''tmpa1b2c3d4'', ''diagram.svg''] \<mapsto> File ''<svg></svg>'')\<rparr>)"
proof -
  let ?r500 = "\<lparr>status_code = 500, content = ''bad syntax'',
                 repr_text = ''<Response [500 Internal Server Error]>''\<rparr>"
  let ?r200 = "\<lparr>status_code = 200, content = ''<svg></svg>'', repr_text = ''<Response [200 OK]>''\<rparr>"
  have enc: "encode_request (JStr ''workspace {}'') = Inr (JStr ''workspace {}'')" by simp
  have a: "http_post world_500 (JStr ''workspace {}'') = Responded ?r500"
    by (simp add: world_500_def render_500_def)
  have b: "http_post world_tmp (JStr ''workspace {}'') = Responded ?r200"
    by (simp add: world_tmp_def world0_def render_ok_def)
  have s: "stdout world_500 = []"
    by (simp add: world_500_def world_tmp_def world0_def)
  have c: "is_dir world_tmp (Path ''/tmp/tmpa1b2c3d4'')"
    by (simp add: is_dir_def resolve_def Path_def parse_root_def world_tmp_def world0_def)
  have d: "resolve world_tmp (Path (''/tmp/tmpa1b2c3d4'' @ ''/diagram.svg''))
       = [''tmp'', ''tmpa1b2c3d4'', ''diagram.svg'']"
    by (simp add: resolve_def Path_def parse_root_def)
  have e: "\<not> is_dir world_tmp (Path (''/tmp/tmpa1b2c3d4'' @ ''/diagram.svg''))"
    unfolding is_dir_def d by (simp add: world_tmp_def world0_def fs0_def)
  have wf: "well_formed_utf8 (content ?r500)" "well_formed_utf8 (content ?r200)"
    by (simp_all add: well_formed_ascii)
  note A = generate_svg_render_error [OF enc a, of "''/tmp/tmpa1b2c3d4''"]
  note B = generate_svg_render_error [OF enc b, of "''/tmp/tmpa1b2c3d4''"]
  from A [THEN conjunct1] wf(1) s
  have 1: "generate_svg world_500 (JStr ''workspace {}'') ''/tmp/tmpa1b2c3d4''
     = (Inl (ClickException ''Failed to create diagram''),
        world_500\<lparr>stdout := [''<Response [500 Internal Server Error]>'', ''bad syntax'']\<rparr>)"
    by simp
  from A [THEN conjunct2, THEN conjunct1]
  have 2: "fs (snd (generate_svg world_500 (JStr ''workspace {}'') ''/tmp/tmpa1b2c3d4'')) = fs world_500"
    by simp
  from B [THEN conjunct2, THEN conjunct2, THEN conjunct2, THEN conjunct2, THEN conjunct2] wf(2)
  have t: "decode_replace (content ?r200) = ''<svg></svg>''" by simp
  from B [THEN conjunct2, THEN conjunct2, THEN conjunct2, THEN conjunct2, THEN conjunct1] c e
  have "generate_svg world_tmp (JStr ''workspace {}'') ''/tmp/tmpa1b2c3d4'' =
           (Inr (''/tmp/tmpa1b2c3d4'' @ ''/diagram.svg''),
            world_tmp\<lparr>fs := (fs world_tmp)(resolve world_tmp (Path (''/tmp/tmpa1b2c3d4'' @ ''/diagram.svg''))
               \<mapsto> File (decode_replace (content ?r200)))\<rparr>)"
    by simp
  then have 3: "generate_svg world_tmp (JStr ''workspace {}'') ''/tmp/tmpa1b2c3d4''
       = (Inr ''/tmp/tmpa1b2c3d4/diagram.svg'',
          world_tmp\<lparr>fs := (fs world_tmp)([''tmp'', ''tmpa1b2c3d4'', ''diagram.svg''] \<mapsto> File ''<svg></svg>'')\<rparr>)"
    unfolding d t by simp
  from 1 2 3 show ?thesis by blast
qed

section \<open>The chained upload\<close>

lemma build_Inr_context:
  assumes "build loads view D w = (Inr (), w')"
  shows "\<exists>p. stdout w' = stdout w @ [str_path p]
           \<and> ctx_obj w' = Some ((case ctx_obj w of None \<Rightarrow> Map.empty | Some d \<Rightarrow> d)(''svg_file_path'' \<mapsto> p))
           \<and> create_cloud_storage w' = create_cloud_storage w"
proof -
  from assms obtain tmp w1 code mods temp w2 p w3 where
    mk: "mkdtemp w = Inr (tmp, w1)"
    and sv: "generate_svg w1 code tmp = (Inr temp, w2)"
    and pl: "place w2 view D temp = (Inr p, w3)"
    and w': "w' = rmtree (echo (str_path p) (set_svg_file_path p w3)) (Path tmp)"
    by (rule build_Inr)
  from mkdtemp_Inr [OF mk] obtain rest where
    w1: "w1 = w\<lparr>fs := (fs w)(resolve w (Path tmp) \<mapsto> Dir), tmp_names := rest\<rparr>" by blast
  from generate_svg_Inr [OF sv] obtain f2 where w2: "w2 = w1\<lparr>fs := f2\<rparr>" by blast
  from place_frame [OF pl] have w3: "w3 = w2\<lparr>fs := fs w3\<rparr>" .
  have 3: "stdout w3 = stdout w" "ctx_obj w3 = ctx_obj w"
    "create_cloud_storage w3 = create_cloud_storage w"
    by (subst w3, simp add: w2 w1)+
  have "stdout w' = stdout w3 @ [str_path p]"
    and "ctx_obj w' = Some ((case ctx_obj w3 of None \<Rightarrow> Map.empty | Some d \<Rightarrow> d)(''svg_file_path'' \<mapsto> p))"
    and "create_cloud_storage w' = create_cloud_storage w3"
    by (simp_all add: w' rmtree_def echo_def set_svg_file_path_def)
  then show ?thesis
    unfolding 3 by blast
qed

text \<open>
  C9: \<^verbatim>\<open>upload\<close> fails at its first statement, before it prints or calls anything, when
  the context object is \<^verbatim>\<open>None\<close> or has no output path. After a \<^verbatim>\<open>build\<close> that
  succeeded, the context object holds the path that \<^verbatim>\<open>build\<close> resolved and printed,
  and \<^verbatim>\<open>upload\<close> hands exactly this path, with the bucket and the object name, to
  the uploader of the cloud storage: whatever the uploader is, the outcome of
  \<^verbatim>\<open>upload\<close> is the outcome of the uploader on this path, and the URL it returns is
  printed after the announcement of the path.
\<close>

theorem upload_uses_build_path:
  "(ctx_obj w = None \<longrightarrow> upload credentials bucket_name object_name w = (Inl TypeError, w))
   \<and> (\<forall>obj. ctx_obj w = Some obj \<and> obj ''svg_file_path'' = None \<longrightarrow>
         upload credentials bucket_name object_name w = (Inl (KeyError ''svg_file_path''), w))
   \<and> (\<forall>loads view file_path w0.
         build loads view file_path w0 = (Inr (), w) \<longrightarrow>
         (\<exists>p. stdout w = stdout w0 @ [str_path p]
            \<and> (\<exists>obj. ctx_obj w = Some obj \<and> obj ''svg_file_path'' = Some p)
            \<and> (\<forall>e. create_cloud_storage w credentials = Inl e \<longrightarrow>
                  upload credentials bucket_name object_name w
                    = (Inl e, w\<lparr>stdout := stdout w @ [''Uploading '' @ str_path p]\<rparr>))
            \<and> (\<forall>upload_file. create_cloud_storage w credentials = Inr upload_file \<longrightarrow>
                  upload credentials bucket_name object_name w =
                    (case upload_file p bucket_name object_name of
                       Inl e \<Rightarrow> (Inl e, w\<lparr>stdout := stdout w @ [''Uploading '' @ str_path p]\<rparr>)
                     | Inr svg_file_url \<Rightarrow>
                         (Inr (), w\<lparr>stdout := stdout w @ [''Uploading '' @ str_path p, svg_file_url]\<rparr>)))))"
proof (intro conjI allI impI)
  assume "ctx_obj w = None"
  then show "upload credentials bucket_name object_name w = (Inl TypeError, w)"
    by (simp add: upload_def)
next
  fix obj assume "ctx_obj w = Some obj \<and> obj ''svg_file_path'' = None"
  then show "upload credentials bucket_name object_name w = (Inl (KeyError ''svg_file_path''), w)"
    by (simp add: upload_def)
next
  fix loads view file_path w0
  assume h: "build loads view file_path w0 = (Inr (), w)"
  from build_Inr_context [OF h] obtain p where
    out: "stdout w = stdout w0 @ [str_path p]"
    and ctx: "ctx_obj w = Some ((case ctx_obj w0 of None \<Rightarrow> Map.empty | Some d \<Rightarrow> d)(''svg_file_path'' \<mapsto> p))"
    by blast
  have a: "\<forall>e. create_cloud_storage w credentials = Inl e \<longrightarrow>
                  upload credentials bucket_name object_name w
                    = (Inl e, w\<lparr>stdout := stdout w @ [''Uploading '' @ str_path p]\<rparr>)"
    using ctx by (simp add: upload_def echo_def Let_def)
  have b: "\<forall>upload_file. create_cloud_storage w credentials = Inr upload_file \<longrightarrow>
                  upload credentials bucket_name object_name w =
                    (case upload_file p bucket_name object_name of
                       Inl e \<Rightarrow> (Inl e, w\<lparr>stdout := stdout w @ [''Uploading '' @ str_path p]\<rparr>)
                     | Inr svg_file_url \<Rightarrow>
                         (Inr (), w\<lparr>stdout := stdout w @ [''Uploading '' @ str_path p, svg_file_url]\<rparr>))"
    using ctx by (auto simp: upload_def echo_def Let_def split: sum.splits)
  from out ctx a b
  show "\<exists>p. stdout w = stdout w0 @ [str_path p]
            \<and> (\<exists>obj. ctx_obj w = Some obj \<and> obj ''svg_file_path'' = Some p)
            \<and> (\<forall>e. create_cloud_storage w credentials = Inl e \<longrightarrow>
                  upload credentials bucket_name object_name w
                    = (Inl e, w\<lparr>stdout := stdout w @ [''Uploading '' @ str_path p]\<rparr>))
            \<and> (\<forall>upload_file. create_cloud_storage w credentials = Inr upload_file \<longrightarrow>
                  upload credentials bucket_name object_name w =
                    (case upload_file p bucket_name object_name of
                       Inl e \<Rightarrow> (Inl e, w\<lparr>stdout := stdout w @ [''Uploading '' @ str_path p]\<rparr>)
                     | Inr svg_file_url \<Rightarrow>
                         (Inr (), w\<lparr>stdout := stdout w @ [''Uploading '' @ str_path p, svg_file_url]\<rparr>)))"
    by (intro exI [of _ p]) simp
qed

section \<open>The scenario of the specification\<close>

lemma example_build_result: "fst example_build = Inr ()"
  by (simp add: example_build_def eval_defs)

lemma example_build_stdout: "stdout (snd example_build) = [''out/examples_single_file_example.svg'']"
  by (simp add: example_build_def eval_defs)

lemma example_build_file:
  "fs (snd example_build) [''home'', ''user'', ''out'', ''examples_single_file_example.svg'']
     = Some (File ''<svg></svg>'')"
  by (simp add: example_build_def eval_defs)

lemma example_build_ctx:
  "the (ctx_obj (snd example_build)) ''svg_file_path''
     = Some \<lparr>root = [], parts = [''out'', ''examples_single_file_example.svg'']\<rparr>"
  by (simp add: example_build_def eval_defs)

lemma example_build_cloud: "create_cloud_storage (snd example_build) = gcs"
  by (simp add: example_build_def eval_defs)

lemma example_build_eq: "build sample_loads example_view ''out/'' world0 = (Inr (), snd example_build)"
  using example_build_result by (simp add: example_build_def prod_eq_iff)

theorem upload_uses_build_path_witness:
  "upload ''credentials.json'' ''bucket'' ''diagram.svg'' world0 = (Inl TypeError, world0)
   \<and> upload ''credentials.json'' ''bucket'' ''diagram.svg'' (snd example_build)
       = (Inr (), (snd example_build)\<lparr>stdout :=
            [''out/examples_single_file_example.svg'',
             ''Uploading out/examples_single_file_example.svg'',
             ''https://storage.googleapis.com/bucket/diagram.svg'']\<rparr>)"
proof -
  note T0 = upload_uses_build_path [of world0 "''credentials.json''" "''bucket''" "''diagram.svg''"]
  note T1 = upload_uses_build_path [of "snd example_build" "''credentials.json''" "''bucket''" "''diagram.svg''"]
  have "ctx_obj world0 = None" by (simp add: world0_def)
  with T0 [THEN conjunct1]
  have 1: "upload ''credentials.json'' ''bucket'' ''diagram.svg'' world0 = (Inl TypeError, world0)"
    by blast
  have c: "create_cloud_storage (snd example_build) ''credentials.json'' = Inr gcs_upload_file"
    by (simp add: example_build_cloud gcs_def)
  from T1 [THEN conjunct2, THEN conjunct2] example_build_eq
  obtain p obj where ctx: "ctx_obj (snd example_build) = Some obj" "obj ''svg_file_path'' = Some p"
    and up: "\<forall>upload_file. create_cloud_storage (snd example_build) ''credentials.json'' = Inr upload_file \<longrightarrow>
                  upload ''credentials.json'' ''bucket'' ''diagram.svg'' (snd example_build) =
                    (case upload_file p ''bucket'' ''diagram.svg'' of
                       Inl e \<Rightarrow> (Inl e, (snd example_build)\<lparr>stdout := stdout (snd example_build) @ [''Uploading '' @ str_path p]\<rparr>)
                     | Inr svg_file_url \<Rightarrow>
                         (Inr (), (snd example_build)\<lparr>stdout := stdout (snd example_build) @ [''Uploading '' @ str_path p, svg_file_url]\<rparr>))"
    by blast
  from ctx example_build_ctx
  have p: "p = \<lparr>root = [], parts = [''out'', ''examples_single_file_example.svg'']\<rparr>"
    by simp
  have s: "str_path p = ''out/examples_single_file_example.svg''"
    by (simp add: p str_path_def)
  from up c have "upload ''credentials.json'' ''bucket'' ''diagram.svg'' (snd example_build) =
                    (case gcs_upload_file p ''bucket'' ''diagram.svg'' of
                       Inl e \<Rightarrow> (Inl e, (snd example_build)\<lparr>stdout := stdout (snd example_build) @ [''Uploading '' @ str_path p]\<rparr>)
                     | Inr svg_file_url \<Rightarrow>
                         (Inr (), (snd example_build)\<lparr>stdout := stdout (snd example_build) @ [''Uploading '' @ str_path p, svg_file_url]\<rparr>))"
    by blast
  then have 2: "upload ''credentials.json'' ''bucket'' ''diagram.svg'' (snd example_build)
       = (Inr (), (snd example_build)\<lparr>stdout :=
            [''out/examples_single_file_example.svg'',
             ''Uploading out/examples_single_file_example.svg'',
             ''https://storage.googleapis.com/bucket/diagram.svg'']\<rparr>)"
    by (simp add: s gcs_upload_file_def example_build_stdout)
  from 1 2 show ?thesis by blast
qed

section \<open>The temporary directory is scoped\<close>

lemma build_async_behavior_cwd:
  "cwd (snd (build_async_behavior loads view D tmp w)) = cwd w"
proof -
  have sv: "cwd w1 = cwd w" if "generate_svg w code tmp = (r, w1)" for code r w1
    using generate_svg_frame [OF that] by (metis world.select_convs(2) world.surjective world.update_convs(1,3))
  have pl: "cwd w2 = cwd w1" if "place w1 view D temp = (r, w2)" for temp r w1 w2
    using place_frame [OF that] by (metis world.select_convs(2) world.surjective world.update_convs(1))
  show ?thesis
  proof (cases "generate_diagram_code_in_child_process loads (child_process w) view")
    case (Inl e)
    then show ?thesis by (simp add: build_async_behavior_def)
  next
    case (Inr cm)
    obtain code mods where cm: "cm = (code, mods)" by (cases cm)
    obtain r1 w1 where g: "generate_svg w code tmp = (r1, w1)" by (cases "generate_svg w code tmp")
    note c1 = sv [OF g]
    show ?thesis
    proof (cases r1)
      case (Inl e)
      with Inr cm g c1 show ?thesis by (simp add: build_async_behavior_def)
    next
      case temp: (Inr temp)
      obtain r2 w2 where pl2: "place w1 view D temp = (r2, w2)" by (cases "place w1 view D temp")
      note c2 = pl [OF pl2]
      from Inr cm g temp pl2 c1 c2 show ?thesis
        by (cases r2) (simp_all add: build_async_behavior_def echo_def set_svg_file_path_def)
    qed
  qed
qed

lemma mkdtemp_is_dir:
  assumes "mkdtemp w = Inr (tmp, w1)"
  shows "is_dir w1 (Path tmp)" "cwd w1 = cwd w" "resolve w1 = resolve w" "tmp \<in> set (tmp_names w)"
proof -
  from mkdtemp_Inr [OF assms] obtain rest where
    w1: "w1 = w\<lparr>fs := (fs w)(resolve w (Path tmp) \<mapsto> Dir), tmp_names := rest\<rparr>"
    and t: "tmp \<in> set (tmp_names w)" by blast
  show "cwd w1 = cwd w" by (simp add: w1)
  then show r: "resolve w1 = resolve w" by (simp add: fun_eq_iff resolve_def)
  show "is_dir w1 (Path tmp)" unfolding is_dir_def r by (simp add: w1)
  show "tmp \<in> set (tmp_names w)" by (rule t)
qed










section \<open>The destination is apart from the temporary directory\<close>

lemma parts_nonempty_string: "parts (Path t) \<noteq> [] \<Longrightarrow> t \<noteq> []"
  by (auto simp: Path_def)

text \<open>
  After \<^verbatim>\<open>mkdtemp\<close> and \<^verbatim>\<open>generate_svg\<close> the world differs from the initial one only
  at the temporary directory and at the rendered file below it.
\<close>

lemma rendered_world:
  assumes mk: "mkdtemp w = Inr (tmp, w1)"
    and sv: "generate_svg w1 code tmp = (Inr temp, w2)"
    and ne: "parts (Path tmp) \<noteq> []"
  shows "resolve w2 = resolve w"
    and "resolve w (Path temp) = resolve w (Path tmp) @ [''diagram.svg'']"
    and "\<exists>resp. http_post w code = Responded resp \<and> status_code resp = 200
           \<and> fs w2 (resolve w (Path temp)) = Some (File (decode_replace (content resp)))"
    and "\<And>k. \<not> prefix (resolve w (Path tmp)) k \<Longrightarrow> fs w2 k = fs w k"
    and "stdout w2 = stdout w" and "ctx_obj w2 = ctx_obj w" and "exdev w2 = exdev w"
proof -
  from mkdtemp_Inr [OF mk] obtain rest where
    w1: "w1 = w\<lparr>fs := (fs w)(resolve w (Path tmp) \<mapsto> Dir), tmp_names := rest\<rparr>" by blast
  from generate_svg_Inr [OF sv] obtain resp where
    temp: "temp = tmp @ ''/diagram.svg''"
    and resp: "http_post w1 code = Responded resp" "status_code resp = 200"
    and w2: "w2 = w1\<lparr>fs := (fs w1)(resolve w1 (Path temp) \<mapsto> File (decode_replace (content resp)))\<rparr>"
    by blast
  have r1: "resolve w1 = resolve w" by (simp add: fun_eq_iff resolve_def w1)
  show r2: "resolve w2 = resolve w" by (simp add: fun_eq_iff resolve_def w2 w1)
  show t: "resolve w (Path temp) = resolve w (Path tmp) @ [''diagram.svg'']"
    unfolding temp using parts_nonempty_string [OF ne] by (rule resolve_diagram)
  from resp have "http_post w code = Responded resp" by (simp add: w1)
  moreover have "fs w2 (resolve w (Path temp)) = Some (File (decode_replace (content resp)))"
    by (simp add: w2 r1)
  ultimately show "\<exists>resp. http_post w code = Responded resp \<and> status_code resp = 200
           \<and> fs w2 (resolve w (Path temp)) = Some (File (decode_replace (content resp)))"
    using resp(2) by blast
  show "fs w2 k = fs w k" if "\<not> prefix (resolve w (Path tmp)) k" for k
  proof -
    from that have "k \<noteq> resolve w (Path tmp)" by auto
    moreover from that have "k \<noteq> resolve w (Path temp)" unfolding t by auto
    moreover have "fs w1 = (fs w)(resolve w (Path tmp) \<mapsto> Dir)" by (simp add: w1)
    moreover have "fs w2 = (fs w1)(resolve w (Path temp) \<mapsto> File (decode_replace (content resp)))"
      by (simp add: w2 r1)
    ultimately show ?thesis by simp
  qed
  show "stdout w2 = stdout w" "ctx_obj w2 = ctx_obj w" "exdev w2 = exdev w"
    by (simp_all add: w2 w1)
qed

lemma join_sep_snoc:
  "join_sep (ps @ [n]) = (if ps = [] then n else join_sep ps @ ''/'' @ n)"
  by (induction ps rule: join_sep.induct) auto

lemma str_path_snoc:
  "str_path \<lparr>root = root p, parts = parts p @ [n]\<rparr> =
     (if parts p = [] then root p @ n else str_path p @ ''/'' @ n)"
  by (simp add: str_path_def join_sep_snoc)

section \<open>Resolving the destination\<close>

text \<open>What a build that succeeds leaves, in terms of the path its placer resolved.\<close>

lemma build_Inr_resolved:
  assumes ok: "build loads view D w = (Inr (), w')"
    and ap: "tmp_apart w (Path D)"
  obtains tmp base_dir p w2 w3 resp code where
    "tmp \<in> set (tmp_names w)"
    "resolve w2 = resolve w"
    "fs w2 (resolve w (Path D)) = fs w (resolve w (Path D))"
    "resolve_destination w2 view D = (base_dir, p)"
    "http_post w code = Responded resp"
    "mkdir_parents w2 base_dir = Inr w3"
    "fs w3 (resolve w (Path tmp) @ [''diagram.svg'']) = Some (File (decode_replace (content resp)))"
    "\<forall>k. \<not> prefix (resolve w (Path tmp)) k \<longrightarrow>
        fs w' k = ((fs w3)(resolve w (move_target w3 (tmp @ ''/diagram.svg'') p) \<mapsto> File (decode_replace (content resp)))) k"
    "stdout w' = stdout w @ [str_path p]"
    "ctx_obj w' = Some ((case ctx_obj w of None \<Rightarrow> Map.empty | Some d \<Rightarrow> d)(''svg_file_path'' \<mapsto> p))"
proof -
  from ok obtain tmp w1 code mods temp w2 p w4 where
    mk: "mkdtemp w = Inr (tmp, w1)"
    and sv: "generate_svg w1 code tmp = (Inr temp, w2)"
    and pl: "place w2 view D temp = (Inr p, w4)"
    and w': "w' = rmtree (echo (str_path p) (set_svg_file_path p w4)) (Path tmp)"
    by (rule build_Inr)
  from mkdtemp_Inr [OF mk] have tmp: "tmp \<in> set (tmp_names w)" by blast
  with ap have ne: "parts (Path tmp) \<noteq> []"
    and np: "\<not> prefix (resolve w (Path tmp)) (resolve w (Path D))"
    by (auto simp: tmp_apart_def)
  note rw = rendered_world [OF mk sv ne]
  from generate_svg_Inr [OF sv] have temp: "temp = tmp @ ''/diagram.svg''" by blast
  from rw(3) obtain resp where resp: "http_post w code = Responded resp"
    and fl: "fs w2 (resolve w (Path temp)) = Some (File (decode_replace (content resp)))" by blast
  from place_Inr [OF pl] obtain base_dir w3 c where
    rd: "resolve_destination w2 view D = (base_dir, p)"
    and md: "mkdir_parents w2 base_dir = Inr w3"
    and c: "fs w3 (resolve w2 (Path temp)) = Some (File c)"
    and w4: "w4 = w3\<lparr>fs := ((fs w3)(resolve w2 (Path temp) := None))
                       (resolve w2 (move_target w3 temp p) \<mapsto> File c)\<rparr>"
    by blast
  from mkdir_parents_adds_is_dir [OF md] have ad: "adds_dirs w2 w3" by simp
  have r3: "resolve w3 = resolve w"
    using adds_dirs_resolve [OF ad] rw(1) by (simp add: fun_eq_iff)
  from ad fl have "fs w3 (resolve w (Path temp)) = Some (File (decode_replace (content resp)))"
    unfolding adds_dirs_def by (metis option.distinct(1))
  with c have cc: "c = decode_replace (content resp)" by (simp add: rw(1))
  have f3: "fs w3 (resolve w (Path tmp) @ [''diagram.svg'']) = Some (File (decode_replace (content resp)))"
    using c cc by (simp add: rw(1) rw(2))
  from ad have w3f: "w3 = w2\<lparr>fs := fs w3\<rparr>" by (simp add: adds_dirs_def)
  have "stdout w3 = stdout w2" "ctx_obj w3 = ctx_obj w2"
    by (subst w3f, simp)+
  then have st: "stdout w4 = stdout w" "ctx_obj w4 = ctx_obj w"
    by (simp_all add: w4 rw(5,6))
  have r4: "resolve w4 = resolve w"
    by (simp add: w4 fun_eq_iff r3)
  have a: "stdout w' = stdout w @ [str_path p]"
    by (simp add: w' rmtree_def echo_def set_svg_file_path_def st)
  have b: "ctx_obj w' = Some ((case ctx_obj w of None \<Rightarrow> Map.empty | Some d \<Rightarrow> d)(''svg_file_path'' \<mapsto> p))"
    by (simp add: w' rmtree_def echo_def set_svg_file_path_def st)
  have d: "fs w' k = ((fs w3)(resolve w (move_target w3 (tmp @ ''/diagram.svg'') p) \<mapsto> File (decode_replace (content resp)))) k"
    if "\<not> prefix (resolve w (Path tmp)) k" for k
  proof -
    have "resolve (echo (str_path p) (set_svg_file_path p w4)) (Path tmp) = resolve w4 (Path tmp)"
      by (simp add: resolve_def echo_def set_svg_file_path_def)
    then have res: "resolve (echo (str_path p) (set_svg_file_path p w4)) (Path tmp) = resolve w (Path tmp)"
      by (simp add: r4)
    from that have "k \<noteq> resolve w (Path temp)" unfolding rw(2) by auto
    with that res show ?thesis
      by (simp add: w' rmtree_def echo_def set_svg_file_path_def w4 rw(1) cc temp)
  qed
  from rw(4) [OF np] have e: "fs w2 (resolve w (Path D)) = fs w (resolve w (Path D))" .
  from d have d': "\<forall>k. \<not> prefix (resolve w (Path tmp)) k \<longrightarrow>
        fs w' k = ((fs w3)(resolve w (move_target w3 (tmp @ ''/diagram.svg'') p) \<mapsto> File (decode_replace (content resp)))) k"
    by blast
  from that [OF tmp rw(1) e rd resp md f3 d' a b] show ?thesis .
qed

section \<open>The resolved output path\<close>

lemma replace_dots_unique:
  assumes "length name = length view"
    and "\<forall>i < length view. name ! i = (if view ! i = CHR ''.'' then CHR ''_'' else view ! i)"
  shows "name = replace_dots view"
  using assms by (intro nth_equalityI) (simp_all add: replace_dots_def)

text \<open>
  C1: let the destination not be a regular file. A build that returns normally has
  resolved the output path to the destination with one more part: a name as long as the
  view, with an underscore wherever the view has a dot and the view's character
  elsewhere, and the suffix \<^verbatim>\<open>.svg\<close>. It has stored this path in the context and has
  printed it, as the destination, a separator and the file name. The view is a dotted
  module path (it holds no separator) and the destination is unrelated to the
  temporary names.
\<close>

theorem build_prints_resolved_path:
  assumes ok: "build loads view file_path w = (Inr (), w')"
    and nf: "\<not> is_file w (Path file_path)"
    and ap: "tmp_apart w (Path file_path)"
    and vw: "CHR ''/'' \<notin> set view"
  shows "\<exists>name. length name = length view
       \<and> (\<forall>i < length view. name ! i = (if view ! i = CHR ''.'' then CHR ''_'' else view ! i))
       \<and> stdout w' = stdout w @
           [if parts (Path file_path) = [] then root (Path file_path) @ name @ ''.svg''
            else str_path (Path file_path) @ ''/'' @ name @ ''.svg'']
       \<and> ctx_obj w' = Some ((case ctx_obj w of None \<Rightarrow> Map.empty | Some d \<Rightarrow> d)
            (''svg_file_path'' \<mapsto>
               \<lparr>root = root (Path file_path), parts = parts (Path file_path) @ [name @ ''.svg'']\<rparr>))"
proof -
  from ok ap obtain base_dir p w2 where
    r2: "resolve w2 = resolve w"
    and same: "fs w2 (resolve w (Path file_path)) = fs w (resolve w (Path file_path))"
    and rd: "resolve_destination w2 view file_path = (base_dir, p)"
    and out: "stdout w' = stdout w @ [str_path p]"
    and ctx: "ctx_obj w' = Some ((case ctx_obj w of None \<Rightarrow> Map.empty | Some d \<Rightarrow> d)(''svg_file_path'' \<mapsto> p))"
    by (rule build_Inr_resolved)
  from nf same have "\<not> is_file w2 (Path file_path)"
    by (simp add: is_file_def r2)
  with rd have "p = truediv (Path file_path) (replace_dots view @ ''.svg'')"
    by (auto simp: resolve_destination_def Let_def)
  with vw have p: "p = \<lparr>root = root (Path file_path),
                        parts = parts (Path file_path) @ [replace_dots view @ ''.svg'']\<rparr>"
    by (simp add: truediv_view)
  have "length (replace_dots view) = length view"
    and "\<forall>i < length view. replace_dots view ! i = (if view ! i = CHR ''.'' then CHR ''_'' else view ! i)"
    by (simp_all add: replace_dots_def)
  moreover have "stdout w' = stdout w @
           [if parts (Path file_path) = [] then root (Path file_path) @ replace_dots view @ ''.svg''
            else str_path (Path file_path) @ ''/'' @ replace_dots view @ ''.svg'']"
    unfolding out p str_path_snoc by simp
  moreover have "ctx_obj w' = Some ((case ctx_obj w of None \<Rightarrow> Map.empty | Some d \<Rightarrow> d)
            (''svg_file_path'' \<mapsto>
               \<lparr>root = root (Path file_path),
                parts = parts (Path file_path) @ [replace_dots view @ ''.svg'']\<rparr>))"
    unfolding ctx p by simp
  ultimately show ?thesis by blast
qed

lemma example_destination:
  "\<not> is_file world0 (Path ''out/'')" "tmp_apart world0 (Path ''out/'')"
  "CHR ''/'' \<notin> set example_view"
  by (simp_all add: is_file_def plain_def tmp_apart_def resolve_def Path_def parse_root_def
      world0_def fs0_def example_view_def)

theorem build_prints_resolved_path_witness:
  "fst (build sample_loads example_view ''out/'' world0) = Inr ()
   \<and> stdout (snd (build sample_loads example_view ''out/'' world0))
       = [''out/examples_single_file_example.svg'']
   \<and> ctx_obj (snd (build sample_loads example_view ''out/'' world0))
       = Some [''svg_file_path'' \<mapsto> \<lparr>root = [], parts = [''out'', ''examples_single_file_example.svg'']\<rparr>]
   \<and> fs (snd (build sample_loads example_view ''out/'' world0))
        [''home'', ''user'', ''out'', ''examples_single_file_example.svg'']
       = Some (File ''<svg></svg>'')"
proof -
  from build_prints_resolved_path [OF example_build_eq example_destination]
  obtain name where len: "length name = length example_view"
    and nth: "\<forall>i < length example_view.
                name ! i = (if example_view ! i = CHR ''.'' then CHR ''_'' else example_view ! i)"
    and out: "stdout (snd example_build) = stdout world0 @
           [if parts (Path ''out/'') = [] then root (Path ''out/'') @ name @ ''.svg''
            else str_path (Path ''out/'') @ ''/'' @ name @ ''.svg'']"
    and ctx: "ctx_obj (snd example_build) = Some ((case ctx_obj world0 of None \<Rightarrow> Map.empty | Some d \<Rightarrow> d)
            (''svg_file_path'' \<mapsto>
               \<lparr>root = root (Path ''out/''), parts = parts (Path ''out/'') @ [name @ ''.svg'']\<rparr>))"
    by blast
  from replace_dots_unique [OF len nth] have name: "name = ''examples_single_file_example''"
    by (simp add: replace_dots_def example_view_def)
  have w0: "stdout world0 = []" "ctx_obj world0 = None" by (simp_all add: world0_def)
  have pth: "parts (Path ''out/'') = [''out'']" "root (Path ''out/'') = []" "str_path (Path ''out/'') = ''out''"
    by (simp_all add: Path_def parse_root_def str_path_def)
  from out have 1: "stdout (snd example_build) = [''out/examples_single_file_example.svg'']"
    by (simp add: name w0 pth)
  from ctx have 2: "ctx_obj (snd example_build)
       = Some [''svg_file_path'' \<mapsto> \<lparr>root = [], parts = [''out'', ''examples_single_file_example.svg'']\<rparr>]"
    by (simp add: name w0 pth)
  from example_build_result example_build_file 1 2 show ?thesis
    by (simp add: example_build_def)
qed

section \<open>A destination that is a regular file\<close>

lemma is_file_not_dir: "is_file w p \<Longrightarrow> \<not> is_dir w p"
  by (auto simp: is_file_def is_dir_def split: option.splits node.splits)

lemma adds_dirs_is_file: "adds_dirs w w' \<Longrightarrow> is_file w p \<Longrightarrow> is_file w' p"
proof -
  assume ad: "adds_dirs w w'" and f: "is_file w p"
  from f obtain c where "fs w (resolve w p) = Some (File c)"
    by (auto simp: is_file_def split: option.splits node.splits)
  with ad have "fs w' (resolve w p) = Some (File c)"
    unfolding adds_dirs_def by (metis option.distinct(1))
  then show ?thesis
    by (simp add: is_file_def adds_dirs_resolve [OF ad])
qed

lemma build_cwd: "cwd (snd (build loads view D w)) = cwd w"
proof (cases "mkdtemp w")
  case (Inl e)
  then show ?thesis by (simp add: build_def)
next
  case (Inr a)
  obtain tmp w1 where a: "a = (tmp, w1)" by (cases a)
  from Inr a have mk: "mkdtemp w = Inr (tmp, w1)" by simp
  have "cwd (snd (build loads view D w)) = cwd (snd (build_async_behavior loads view D tmp w1))"
    using mk by (simp add: build_def rmtree_def split: prod.splits)
  also have "\<dots> = cwd w1" by (rule build_async_behavior_cwd)
  also have "\<dots> = cwd w" by (rule mkdtemp_is_dir(2) [OF mk])
  finally show ?thesis .
qed

text \<open>
  One build onto an existing regular file: the path resolved, stored and printed is the
  destination itself, and the destination is afterwards a regular file that holds the
  body of the response.
\<close>

lemma build_onto_file:
  assumes ok: "build loads view D w = (Inr (), w')"
    and f: "is_file w (Path D)"
    and ap: "tmp_apart w (Path D)"
  shows "stdout w' = stdout w @ [str_path (Path D)]"
    and "ctx_obj w' = Some ((case ctx_obj w of None \<Rightarrow> Map.empty | Some d \<Rightarrow> d)(''svg_file_path'' \<mapsto> Path D))"
    and "\<exists>code resp. http_post w code = Responded resp
           \<and> fs w' (resolve w (Path D)) = Some (File (decode_replace (content resp)))"
    and "resolve w' = resolve w"
proof -
  from ok ap obtain tmp base_dir p w2 w3 resp code where
    tmp: "tmp \<in> set (tmp_names w)"
    and r2: "resolve w2 = resolve w"
    and same: "fs w2 (resolve w (Path D)) = fs w (resolve w (Path D))"
    and rd: "resolve_destination w2 view D = (base_dir, p)"
    and resp: "http_post w code = Responded resp"
    and md: "mkdir_parents w2 base_dir = Inr w3"
    and fin: "\<forall>k. \<not> prefix (resolve w (Path tmp)) k \<longrightarrow>
        fs w' k = ((fs w3)(resolve w (move_target w3 (tmp @ ''/diagram.svg'') p) \<mapsto> File (decode_replace (content resp)))) k"
    and out: "stdout w' = stdout w @ [str_path p]"
    and ctx: "ctx_obj w' = Some ((case ctx_obj w of None \<Rightarrow> Map.empty | Some d \<Rightarrow> d)(''svg_file_path'' \<mapsto> p))"
    by (rule build_Inr_resolved)
  from f same have f2: "is_file w2 (Path D)"
    by (simp add: is_file_def r2)
  with rd have p: "p = Path D" by (auto simp: resolve_destination_def Let_def)
  from mkdir_parents_adds_is_dir [OF md] have ad: "adds_dirs w2 w3" by simp
  from adds_dirs_is_file [OF ad f2] have "\<not> is_dir w3 (Path D)" by (rule is_file_not_dir)
  then have mt: "move_target w3 (tmp @ ''/diagram.svg'') p = Path D"
    by (simp add: move_target_def p)
  from tmp ap have "\<not> prefix (resolve w (Path tmp)) (resolve w (Path D))"
    by (auto simp: tmp_apart_def)
  with fin have "fs w' (resolve w (Path D)) = Some (File (decode_replace (content resp)))"
    by (simp add: mt)
  with resp show "\<exists>code resp. http_post w code = Responded resp
           \<and> fs w' (resolve w (Path D)) = Some (File (decode_replace (content resp)))" by blast
  show "stdout w' = stdout w @ [str_path (Path D)]" using out p by simp
  show "ctx_obj w' = Some ((case ctx_obj w of None \<Rightarrow> Map.empty | Some d \<Rightarrow> d)(''svg_file_path'' \<mapsto> Path D))"
    using ctx p by simp
  show "resolve w' = resolve w"
    using build_cwd [of loads view D w] ok by (simp add: resolve_def fun_eq_iff)
qed

text \<open>
  C7: let the destination exist as a regular file. A build that returns normally has
  resolved the output path to the destination itself, and the destination is then
  again a regular file, now with the body of the response. So a second build with the
  same destination, started from the file system the first one left, resolves the same
  path. (The destination has no parent-directory part and is unrelated to the
  temporary names.)
\<close>

theorem destination_resolution_idempotent:
  assumes f: "is_file w (Path D)"
    and pl: "plain (Path D)"
    and ap: "tmp_apart w (Path D)"
    and first: "build loads view D w = (Inr (), w1)"
    and again: "fs w2 = fs w1" "cwd w2 = cwd w1"
    and ap2: "tmp_apart w2 (Path D)"
    and second: "build loads2 view2 D w2 = (Inr (), w3)"
  shows "(\<exists>obj. ctx_obj w1 = Some obj \<and> obj ''svg_file_path'' = Some (Path D))
     \<and> (\<exists>obj. ctx_obj w3 = Some obj \<and> obj ''svg_file_path'' = Some (Path D))
     \<and> stdout w1 = stdout w @ [str_path (Path D)]
     \<and> stdout w3 = stdout w2 @ [str_path (Path D)]
     \<and> is_file w1 (Path D) \<and> is_file w3 (Path D)
     \<and> (\<exists>code resp. http_post w code = Responded resp
            \<and> fs w1 (resolve w (Path D)) = Some (File (decode_replace (content resp))))"
proof -
  note one = build_onto_file [OF first f ap]
  from one(3) obtain code resp where resp: "http_post w code = Responded resp"
    and c1: "fs w1 (resolve w (Path D)) = Some (File (decode_replace (content resp)))" by blast
  from c1 one(4) have f1: "is_file w1 (Path D)" by (simp add: is_file_def)
  from again have r2: "resolve w2 = resolve w1" by (simp add: resolve_def fun_eq_iff)
  with f1 again have f2: "is_file w2 (Path D)" by (simp add: is_file_def)
  note two = build_onto_file [OF second f2 ap2]
  from two(3) obtain resp2 :: response where
    "fs w3 (resolve w2 (Path D)) = Some (File (decode_replace (content resp2)))" by blast
  with two(4) have f3: "is_file w3 (Path D)" by (simp add: is_file_def)
  from one(2) have a: "\<exists>obj. ctx_obj w1 = Some obj \<and> obj ''svg_file_path'' = Some (Path D)" by simp
  from two(2) have b: "\<exists>obj. ctx_obj w3 = Some obj \<and> obj ''svg_file_path'' = Some (Path D)" by simp
  from a b one(1) two(1) f1 f3 resp c1 show ?thesis by blast
qed

lemma first_build_result: "fst first_build = Inr ()"
  by code_simp

lemma second_build_result: "fst second_build = Inr ()"
  by code_simp

lemma world_file_destination:
  "is_file world_file (Path ''diagram.svg'')" "plain (Path ''diagram.svg'')"
  "tmp_apart world_file (Path ''diagram.svg'')"
  by (simp_all add: is_file_def plain_def tmp_apart_def resolve_def Path_def parse_root_def
      world_file_def world0_def)

lemma world_again_destination: "tmp_apart world_again (Path ''diagram.svg'')"
proof -
  have "cwd world_again = cwd world_file"
    using build_cwd [of sample_loads example_view "''diagram.svg''" world_file]
    by (simp add: world_again_def first_build_def)
  then show ?thesis
    by (simp add: tmp_apart_def resolve_def Path_def parse_root_def world_again_def
        world_file_def world0_def)
qed

theorem destination_resolution_idempotent_witness:
  "fst first_build = Inr () \<and> fst second_build = Inr ()
   \<and> stdout (snd first_build) = [''diagram.svg'']
   \<and> stdout (snd second_build) = [''diagram.svg'', ''diagram.svg'']
   \<and> fs (snd first_build) [''home'', ''user'', ''diagram.svg''] = Some (File ''<svg></svg>'')"
proof -
  have one: "build sample_loads example_view ''diagram.svg'' world_file = (Inr (), snd first_build)"
    using first_build_result by (simp add: first_build_def prod_eq_iff)
  have two: "build sample_loads example_view ''diagram.svg'' world_again = (Inr (), snd second_build)"
    using second_build_result by (simp add: second_build_def prod_eq_iff)
  have again: "fs world_again = fs (snd first_build)" "cwd world_again = cwd (snd first_build)"
    by (simp_all add: world_again_def)
  note T = destination_resolution_idempotent [OF world_file_destination one again
      world_again_destination two]
  have p: "str_path (Path ''diagram.svg'') = ''diagram.svg''"
    by (simp add: str_path_def Path_def parse_root_def)
  have s0: "stdout world_file = []" by (simp add: world_file_def world0_def)
  have s1: "stdout world_again = stdout (snd first_build)" by (simp add: world_again_def)
  from T [THEN conjunct2, THEN conjunct2, THEN conjunct1]
  have a: "stdout (snd first_build) = [''diagram.svg'']" by (simp add: p s0)
  from T [THEN conjunct2, THEN conjunct2, THEN conjunct2, THEN conjunct1]
  have b: "stdout (snd second_build) = [''diagram.svg'', ''diagram.svg'']"
    by (simp add: p s1 a)
  have r: "resolve world_file (Path ''diagram.svg'') = [''home'', ''user'', ''diagram.svg'']"
    by (simp add: resolve_def Path_def parse_root_def world_file_def world0_def)
  have h: "http_post world_file code =
      Responded \<lparr>status_code = 200, content = ''<svg></svg>'', repr_text = ''<Response [200 OK]>''\<rparr>" for code
    by (simp add: world_file_def world0_def render_ok_def)
  from T [THEN conjunct2, THEN conjunct2, THEN conjunct2, THEN conjunct2, THEN conjunct2, THEN conjunct2]
  have c: "fs (snd first_build) [''home'', ''user'', ''diagram.svg''] = Some (File ''<svg></svg>'')"
    unfolding r h by (auto simp: decode_replace_ascii)
  from first_build_result second_build_result a b c show ?thesis by blast
qed

section \<open>Creating the destination directory\<close>

text \<open>
  C6: let the destination be a chain of directories that exists down to some depth
  \<open>m\<close> (at least the directory it starts from) and is absent below; \<open>m\<close> may be the
  whole chain, the directory then exists already. Then the placer succeeds: the whole
  chain consists of directories afterwards, the rendered file is inside the
  destination under the name derived from the view, and it is gone from where it was.
  An existing directory is left as it is. (The view is a dotted module path, the
  destination has no parent-directory part, and the resolved path is neither an
  existing directory nor the rendered file itself.)
\<close>

theorem place_creates_directory_chain:
  assumes pl: "plain (Path D)"
    and vw: "CHR ''/'' \<notin> set view"
    and m: "m \<le> length (parts (Path D))"
    and dirs: "\<forall>j \<le> m. is_dir w (ancestor (Path D) j)"
    and absent: "\<forall>j. m < j \<and> j \<le> length (parts (Path D)) \<longrightarrow> \<not> exists_path w (ancestor (Path D) j)"
    and src: "fs w (resolve w (Path temp)) = Some (File c)"
    and tgt: "\<not> is_dir w (truediv (Path D) (replace_dots view @ ''.svg''))"
    and ne: "resolve w (Path temp) \<noteq> resolve w (truediv (Path D) (replace_dots view @ ''.svg''))"
  shows "\<exists>w'. place w view D temp = (Inr (truediv (Path D) (replace_dots view @ ''.svg'')), w')
           \<and> (\<forall>j \<le> length (parts (Path D)). is_dir w' (ancestor (Path D) j))
           \<and> fs w' (resolve w (Path D) @ [replace_dots view @ ''.svg'']) = Some (File c)
           \<and> fs w' (resolve w (Path temp)) = None
           \<and> (is_dir w (Path D) \<longrightarrow> mkdir_parents w (Path D) = Inr w)"
proof -
  let ?p = "Path D"
  let ?n = "length (parts ?p)"
  let ?name = "replace_dots view @ ''.svg''"
  let ?dst = "truediv ?p ?name"
  let ?w1 = "chain_created w ?p m"
  let ?kt = "resolve w (Path temp)"
  let ?kd = "resolve w ?p @ [?name]"
  let ?w' = "?w1\<lparr>fs := ((fs ?w1)(?kt := None))(?kd \<mapsto> File c)\<rparr>"
  have dst: "?dst = \<lparr>root = root ?p, parts = parts ?p @ [?name]\<rparr>"
    using vw by (rule truediv_view)
  have kd: "resolve w ?dst = ?kd" by (simp add: dst resolve_def)
  have r1: "resolve ?w1 = resolve w" by (simp add: chain_created_def fun_eq_iff)
  have nofile: "\<not> is_file w ?p"
  proof (cases "m = ?n")
    case True
    with dirs have "is_dir w (ancestor ?p ?n)" by blast
    then show ?thesis
      by (simp add: ancestor_full is_dir_def is_file_def)
  next
    case False
    with m absent have "\<not> exists_path w (ancestor ?p ?n)" by simp
    then show ?thesis
      by (simp add: ancestor_full exists_path_def is_file_def)
  qed
  then have rd: "resolve_destination w view D = (?p, ?dst)"
    by (simp add: resolve_destination_def Let_def)
  have mk: "mkdir_parents w ?p = Inr ?w1"
    using m dirs absent by (rule mkdir_parents_total)
  have anc: "is_dir ?w1 (ancestor ?p j)" if "j \<le> ?n" for j
    using dirs that by (rule chain_created_is_dir)
  have not_anc: "k \<noteq> resolve w (ancestor ?p j)" if "fs w k = Some (File c)" "j \<le> ?n" for k j
  proof
    assume k: "k = resolve w (ancestor ?p j)"
    show False
    proof (cases "j \<le> m")
      case True
      with dirs have "is_dir w (ancestor ?p j)" by blast
      with that(1) k show False by (simp add: is_dir_def)
    next
      case False
      with that(2) absent have "\<not> exists_path w (ancestor ?p j)" by simp
      with that(1) k show False by (simp add: exists_path_def)
    qed
  qed
  have kt1: "fs ?w1 ?kt = Some (File c)"
    using src not_anc [OF src] by (auto simp: chain_created_def)
  have kd_anc: "?kd \<noteq> resolve w (ancestor ?p j)" for j
    by (auto simp: resolve_def ancestor_def dest: arg_cong [where f = length])
  have kd1: "fs ?w1 ?kd = fs w ?kd"
    using kd_anc by (auto simp: chain_created_def)
  from tgt have "fs w ?kd \<noteq> Some Dir" by (simp add: is_dir_def kd)
  with kd1 have kd2: "fs ?w1 ?kd \<noteq> Some Dir" by simp
  then have nd: "\<not> is_dir ?w1 ?dst" by (simp add: is_dir_def r1 kd)
  have par: "fs ?w1 (butlast (resolve ?w1 ?dst)) = Some Dir"
    using anc [of ?n] by (simp add: r1 kd ancestor_full is_dir_def)
  have "move_to ?w1 temp ?dst =
          Inr (?w1\<lparr>fs := ((fs ?w1)(resolve ?w1 (Path temp) := None))(resolve ?w1 ?dst \<mapsto> File c)\<rparr>)"
  proof (rule move_to_total)
    show "fs ?w1 (resolve ?w1 (Path temp)) = Some (File c)" using kt1 by (simp add: r1)
    show "parts ?dst \<noteq> []" by (simp add: dst)
    show "fs ?w1 (butlast (resolve ?w1 ?dst)) = Some Dir" by (rule par)
    show "fs ?w1 (resolve ?w1 ?dst) \<noteq> Some Dir" using kd2 by (simp add: r1 kd)
    show "resolve ?w1 (Path temp) \<noteq> resolve ?w1 ?dst" using ne by (simp add: r1)
  qed
  then have mv: "shutil_move ?w1 temp ?dst = Inr ?w'"
    using nd by (simp add: shutil_move_def r1 kd)
  from rd mk mv have res: "place w view D temp = (Inr ?dst, ?w')"
    by (simp add: place_def)
  have a: "\<forall>j \<le> ?n. is_dir ?w' (ancestor ?p j)"
  proof (intro allI impI)
    fix j assume j: "j \<le> ?n"
    have "resolve w (ancestor ?p j) \<noteq> ?kt" using not_anc [OF src j] by simp
    moreover have "resolve w (ancestor ?p j) \<noteq> ?kd" using kd_anc [of j] by simp
    moreover have "fs ?w1 (resolve w (ancestor ?p j)) = Some Dir"
      using anc [OF j] by (simp add: is_dir_def r1)
    ultimately show "is_dir ?w' (ancestor ?p j)"
      by (simp add: is_dir_def r1)
  qed
  have b: "fs ?w' ?kd = Some (File c)" by simp
  have ne': "?kt \<noteq> ?kd" using ne by (simp add: kd)
  then have d: "fs ?w' ?kt = None" by simp
  have e: "is_dir w ?p \<longrightarrow> mkdir_parents w ?p = Inr w"
  proof
    assume "is_dir w ?p"
    then have ex: "exists_path w (ancestor ?p ?n)"
      by (simp add: ancestor_full is_dir_def exists_path_def)
    have "m = ?n"
    proof (rule ccontr)
      assume "m \<noteq> ?n"
      with m have "m < ?n \<and> ?n \<le> ?n" by simp
      with absent have "\<not> exists_path w (ancestor ?p ?n)" by blast
      with ex show False by simp
    qed
    with mk show "mkdir_parents w ?p = Inr w" by (simp add: chain_created_same)
  qed
  from res a b d e show ?thesis by blast
qed

end
